theory Spec2Isabelle
  imports Complex_Main "HOL-Library.Word" "HOL-Library.Multiset"
begin

section \<open>SHA-256 (hashlib.sha256 of the Python standard library, after FIPS 180-4)\<close>

unbundle bit_operations_syntax

type_synonym byte = "8 word"
type_synonym u32 = "32 word"

definition rotr :: "nat \<Rightarrow> u32 \<Rightarrow> u32" where
  "rotr n x = drop_bit n x OR push_bit (32 - n) x"

definition Ch :: "u32 \<Rightarrow> u32 \<Rightarrow> u32 \<Rightarrow> u32" where
  "Ch x y z = (x AND y) XOR (NOT x AND z)"

definition Maj :: "u32 \<Rightarrow> u32 \<Rightarrow> u32 \<Rightarrow> u32" where
  "Maj x y z = (x AND y) XOR (x AND z) XOR (y AND z)"

definition Sigma0 :: "u32 \<Rightarrow> u32" where
  "Sigma0 x = rotr 2 x XOR rotr 13 x XOR rotr 22 x"

definition Sigma1 :: "u32 \<Rightarrow> u32" where
  "Sigma1 x = rotr 6 x XOR rotr 11 x XOR rotr 25 x"

definition sigma0 :: "u32 \<Rightarrow> u32" where
  "sigma0 x = rotr 7 x XOR rotr 18 x XOR drop_bit 3 x"

definition sigma1 :: "u32 \<Rightarrow> u32" where
  "sigma1 x = rotr 17 x XOR rotr 19 x XOR drop_bit 10 x"

text \<open>
  The round constants (the first 32 bits of the fractional parts of the cube roots of the
  first 64 primes) and the initial hash value (likewise for the square roots of the first
  8 primes), written in decimal.
\<close>

definition sha256_K :: "u32 list" where
  "sha256_K =
   [1116352408, 1899447441, 3049323471, 3921009573, 961987163, 1508970993,
    2453635748, 2870763221, 3624381080, 310598401, 607225278, 1426881987,
    1925078388, 2162078206, 2614888103, 3248222580, 3835390401, 4022224774,
    264347078, 604807628, 770255983, 1249150122, 1555081692, 1996064986,
    2554220882, 2821834349, 2952996808, 3210313671, 3336571891, 3584528711,
    113926993, 338241895, 666307205, 773529912, 1294757372, 1396182291,
    1695183700, 1986661051, 2177026350, 2456956037, 2730485921, 2820302411,
    3259730800, 3345764771, 3516065817, 3600352804, 4094571909, 275423344,
    430227734, 506948616, 659060556, 883997877, 958139571, 1322822218,
    1537002063, 1747873779, 1955562222, 2024104815, 2227730452, 2361852424,
    2428436474, 2756734187, 3204031479, 3329325298]"

definition sha256_H0 :: "u32 list" where
  "sha256_H0 =
   [1779033703, 3144134277, 1013904242, 2773480762, 1359893119, 2600822924,
    528734635, 1541459225]"

text \<open>Big-endian conversions between bytes and 32-bit words.\<close>

fun be_word :: "byte list \<Rightarrow> u32" where
  "be_word [] = 0"
| "be_word (b # bs) = push_bit (8 * length bs) (ucast b) OR be_word bs"

definition word_bytes :: "u32 \<Rightarrow> byte list" where
  "word_bytes w = [ucast (drop_bit 24 w), ucast (drop_bit 16 w), ucast (drop_bit 8 w), ucast w]"

fun block_words :: "byte list \<Rightarrow> u32 list" where
  "block_words (a # b # c # d # bs) = be_word [a, b, c, d] # block_words bs"
| "block_words _ = []"

text \<open>Message padding: a 1 bit, zeros up to 56 mod 64 bytes, the bit length as 64 bits.\<close>

definition length_bytes :: "nat \<Rightarrow> byte list" where
  "length_bytes n = map (\<lambda>i. word_of_nat (n div 2 ^ (8 * (7 - i)))) [0..<8]"

definition sha256_pad :: "byte list \<Rightarrow> byte list" where
  "sha256_pad m =
     m @ [0x80] @ replicate ((55 + 64 - length m mod 64) mod 64) 0 @ length_bytes (8 * length m)"

fun schedule :: "nat \<Rightarrow> u32 list \<Rightarrow> u32 list" where
  "schedule 0 w = w"
| "schedule (Suc n) w =
     schedule n (w @ [sigma1 (w ! (length w - 2)) + w ! (length w - 7) +
                      sigma0 (w ! (length w - 15)) + w ! (length w - 16)])"

fun sha256_round :: "u32 list \<Rightarrow> u32 \<times> u32 \<Rightarrow> u32 list" where
  "sha256_round [a, b, c, d, e, f, g, h] (k, w) =
     (let t1 = h + Sigma1 e + Ch e f g + k + w;
          t2 = Sigma0 a + Maj a b c
      in [t1 + t2, a, b, c, d + t1, e, f, g])"
| "sha256_round s _ = s"

definition compress :: "u32 list \<Rightarrow> byte list \<Rightarrow> u32 list" where
  "compress hs block =
     map2 (+) hs (foldl sha256_round hs (zip sha256_K (schedule 48 (block_words block))))"

fun blocks :: "nat \<Rightarrow> byte list \<Rightarrow> byte list list" where
  "blocks 0 bs = []"
| "blocks (Suc n) bs = take 64 bs # blocks n (drop 64 bs)"

definition sha256 :: "byte list \<Rightarrow> byte list" where
  "sha256 m =
     (let p = sha256_pad m
      in concat (map word_bytes (foldl compress sha256_H0 (blocks (length p div 64) p))))"



section \<open>Python primitives used by the modem\<close>

datatype error = ZeroDivisionError | ValueError | IndexError | KeyError | OverflowError

text \<open>
  Python floats are IEEE 754 doubles. A finite float is modelled as the real number it
  denotes. An arithmetic operation computes the exact real result and rounds it to the
  nearest double, ties to even (\<open>round64\<close>); the result is an infinity when the rounded
  magnitude reaches \<open>2^1024\<close> (\<open>overflows\<close>). \<open>binade x\<close> is the exponent of the
  binade of \<open>x\<close>, from \<open>-1022\<close> (the subnormal range) to \<open>1024\<close> (beyond the largest
  double). The sign of zero is not modelled.
\<close>

definition binade :: "real \<Rightarrow> int" where
  "binade x =
     (case find (\<lambda>e. \<bar>x\<bar> < 2 powi (e + 1)) [- 1022..1023] of
        Some e \<Rightarrow> e
      | None \<Rightarrow> 1024)"

definition round_half_even :: "real \<Rightarrow> int" where
  "round_half_even m =
     (let f = \<lfloor>m\<rfloor>
      in if m - real_of_int f < 1 / 2 then f
         else if 1 / 2 < m - real_of_int f then f + 1
         else if even f then f else f + 1)"

definition round64 :: "real \<Rightarrow> real" where
  "round64 x =
     (let ulp = 2 powi (binade x - 52)
      in real_of_int (round_half_even (x / ulp)) * ulp)"

definition overflows :: "real \<Rightarrow> bool" where
  "overflows x = (2 powi 1024 \<le> \<bar>round64 x\<bar>)"

text \<open>\<open>int(x)\<close> on a float truncates towards zero.\<close>

definition py_int :: "real \<Rightarrow> int" where
  "py_int x = (if 0 \<le> x then \<lfloor>x\<rfloor> else \<lceil>x\<rceil>)"

text \<open>\<open>bytes([i])\<close> raises ValueError unless \<open>0 <= i < 256\<close>.\<close>

definition bytes_of_int :: "int \<Rightarrow> error + byte list" where
  "bytes_of_int i = (if 0 \<le> i \<and> i < 256 then Inr [word_of_int i] else Inl ValueError)"

text \<open>\<open>int.from_bytes(bs, 'big')\<close>.\<close>

definition int_from_bytes_big :: "byte list \<Rightarrow> nat" where
  "int_from_bytes_big bs = foldl (\<lambda>acc b. acc * 256 + unat b) 0 bs"

text \<open>\<open>xs[i]\<close> with Python's negative indices and IndexError.\<close>

definition py_index :: "'a list \<Rightarrow> int \<Rightarrow> error + 'a" where
  "py_index xs i =
     (if 0 \<le> i \<and> i < int (length xs) then Inr (xs ! nat i)
      else if i < 0 \<and> - int (length xs) \<le> i then Inr (xs ! nat (int (length xs) + i))
      else Inl IndexError)"

section \<open>frequency\_hopping.py: class FrequencyHopper\<close>

text \<open>
  Frequencies, times and samples are Python floats, modelled as the reals they denote.
  The channel count and the channel grid round as the doubles do (\<open>round64\<close>); the
  dwell time, the sample count and the waveform synthesis (\<open>sin\<close>, \<open>cos\<close>, the
  sample times) are taken in exact real arithmetic. The bounds of the range and the spacing
  are floats, as the signature annotates them; an int below \<open>2^53\<close> in magnitude that is
  passed for one of them, like the default bounds, computes the same count and grid as the
  float of its value.
\<close>

record FrequencyHopper =
  secret_key :: "byte list"
  hop_range :: "real \<times> real"
  dwell_time_sec :: real
  hop_spacing :: real
  sample_rate :: int
  hop_frequencies :: "real list"
  hop_count :: int

text \<open>
  The body of the shuffle loop \<open>for i in range(len(frequencies))\<close>: the running digest,
  the pool \<open>remaining\<close> and the output \<open>shuffled\<close> are threaded through.
\<close>

fun shuffle_loop :: "int list \<Rightarrow> byte list \<Rightarrow> 'a list \<Rightarrow> 'a list \<Rightarrow> error + 'a list" where
  "shuffle_loop [] rng_state remaining shuffled = Inr shuffled"
| "shuffle_loop (i # is) rng_state remaining shuffled =
     (case bytes_of_int i of
        Inl e \<Rightarrow> Inl e
      | Inr b \<Rightarrow>
          (let rng_state' = sha256 (rng_state @ b) in
           if remaining = [] then Inl ZeroDivisionError
           else
             (let idx = int_from_bytes_big (take 4 rng_state') mod length remaining
              in shuffle_loop is rng_state'
                   (take idx remaining @ drop (Suc idx) remaining)
                   (shuffled @ [remaining ! idx]))))"

text \<open>
  \<open>num_channels = int((max_freq - min_freq) / self.hop_spacing)\<close>: the difference and
  the quotient are rounded; a zero spacing is the ZeroDivisionError of the division, an
  infinite quotient the OverflowError of \<open>int()\<close>.
\<close>

definition num_channels_of :: "real \<times> real \<Rightarrow> real \<Rightarrow> error + int" where
  "num_channels_of rng spacing =
     (if spacing = 0 then Inl ZeroDivisionError
      else if overflows (snd rng - fst rng) \<or> overflows (round64 (snd rng - fst rng) / spacing)
        then Inl OverflowError
      else Inr (py_int (round64 (round64 (snd rng - fst rng) / spacing))))"

text \<open>
  The ordered channel grid \<open>[min_freq + i * hop_spacing for i in range(num_channels)]\<close>:
  the index is converted to a float, the product and the sum are rounded.
\<close>

definition channel_grid :: "real \<times> real \<Rightarrow> real \<Rightarrow> int \<Rightarrow> real list" where
  "channel_grid rng spacing num_channels =
     map (\<lambda>i. round64 (fst rng + round64 (round64 (real i) * spacing))) [0..<nat num_channels]"

definition generate_hop_table :: "byte list \<Rightarrow> real \<times> real \<Rightarrow> real \<Rightarrow> error + real list" where
  "generate_hop_table key rng spacing =
     (case num_channels_of rng spacing of
        Inl e \<Rightarrow> Inl e
      | Inr num_channels \<Rightarrow>
          (let frequencies = channel_grid rng spacing num_channels;
               rng_state = sha256 key
           in shuffle_loop (map int [0..<length frequencies]) rng_state frequencies []))"

text \<open>
  The constructor. \<open>token_bytes\<close> stands for the 32 bytes that
  \<open>secrets.token_bytes(32)\<close> returns when it is called; \<open>key or token\<close> takes the
  token for \<open>None\<close> and for every falsy key, that is the empty byte string.
\<close>

definition FrequencyHopper_init ::
  "byte list option \<Rightarrow> byte list \<Rightarrow> real \<times> real \<Rightarrow> real \<Rightarrow> real \<Rightarrow> int
   \<Rightarrow> error + FrequencyHopper" where
  "FrequencyHopper_init key_arg token_bytes rng dwell_time_ms hop_spacing_hz rate =
     (let key = (case key_arg of None \<Rightarrow> token_bytes
                 | Some k \<Rightarrow> if k = [] then token_bytes else k)
      in case generate_hop_table key rng hop_spacing_hz of
           Inl e \<Rightarrow> Inl e
         | Inr table \<Rightarrow>
             Inr \<lparr>secret_key = key, hop_range = rng, dwell_time_sec = dwell_time_ms / 1000,
                  hop_spacing = hop_spacing_hz, sample_rate = rate,
                  hop_frequencies = table, hop_count = int (length table)\<rparr>)"

text \<open>\<open>_get_hop_freq\<close>: \<open>self.hop_frequencies[hop_index % self.hop_count]\<close>.\<close>

definition get_hop_freq :: "FrequencyHopper \<Rightarrow> int \<Rightarrow> error + real" where
  "get_hop_freq self hop_index =
     (if hop_count self = 0 then Inl ZeroDivisionError
      else py_index (hop_frequencies self) (hop_index mod hop_count self))"

text \<open>
  The body of the sample loop of \<open>encode_symbol\<close> at sample index \<open>i\<close>: the value
  stored in \<open>samples[i]\<close>, or the ZeroDivisionError of \<open>i / self.sample_rate\<close> or of
  \<open>max_deviation / symbol_freq\<close>.
\<close>

definition fm_sample ::
  "FrequencyHopper \<Rightarrow> real \<Rightarrow> real \<Rightarrow> real \<Rightarrow> real \<Rightarrow> real \<Rightarrow> nat \<Rightarrow> error + real" where
  "fm_sample self carrier_freq max_deviation symbol_freq amplitude phase i =
     (if sample_rate self = 0 then Inl ZeroDivisionError
      else
        (let t = real i / real_of_int (sample_rate self);
             modulation = sin (2 * pi * symbol_freq * t);
             inst_freq = carrier_freq + max_deviation * modulation;
             carrier_phase = 2 * pi * carrier_freq * t
         in if symbol_freq = 0 then Inl ZeroDivisionError
            else
              (let mod_phase = (max_deviation / symbol_freq) * sin (2 * pi * symbol_freq * t)
               in Inr (amplitude * sin (carrier_phase + mod_phase + phase)))))"

text \<open>\<open>for i in range(num_samples): samples[i] = ...\<close> over the preallocated buffer.\<close>

fun sample_loop :: "(nat \<Rightarrow> error + real) \<Rightarrow> nat list \<Rightarrow> real list \<Rightarrow> error + real list" where
  "sample_loop body [] samples = Inr samples"
| "sample_loop body (i # is) samples =
     (case body i of
        Inl e \<Rightarrow> Inl e
      | Inr v \<Rightarrow> sample_loop body is (samples[i := v]))"

definition encode_symbol ::
  "FrequencyHopper \<Rightarrow> real \<Rightarrow> real \<Rightarrow> real \<Rightarrow> int \<Rightarrow> error + real list" where
  "encode_symbol self symbol_freq amplitude phase hop_index =
     (case get_hop_freq self hop_index of
        Inl e \<Rightarrow> Inl e
      | Inr carrier_freq \<Rightarrow>
          (let max_deviation = carrier_freq * (1 / 10);
               num_samples = py_int (real_of_int (sample_rate self) * dwell_time_sec self);
               samples = replicate (nat num_samples) 0
           in sample_loop (fm_sample self carrier_freq max_deviation symbol_freq amplitude phase)
                [0..<nat num_samples] samples))"

record Metadata =
  num_symbols :: nat
  start_hop :: int
  end_hop :: int
  duration_sec :: real
  hops_used :: int

fun message_loop ::
  "FrequencyHopper \<Rightarrow> (real \<times> real \<times> real) list \<Rightarrow> real list \<Rightarrow> int
   \<Rightarrow> error + (real list \<times> int)" where
  "message_loop self [] all_samples hop_idx = Inr (all_samples, hop_idx)"
| "message_loop self ((symbol_freq, amplitude, phase) # rest) all_samples hop_idx =
     (case encode_symbol self symbol_freq amplitude phase hop_idx of
        Inl e \<Rightarrow> Inl e
      | Inr symbol_samples \<Rightarrow>
          message_loop self rest (all_samples @ symbol_samples) (hop_idx + 1))"

definition encode_message ::
  "FrequencyHopper \<Rightarrow> (real \<times> real \<times> real) list \<Rightarrow> int \<Rightarrow> error + (real list \<times> Metadata)" where
  "encode_message self symbols start_hop_index =
     (case message_loop self symbols [] start_hop_index of
        Inl e \<Rightarrow> Inl e
      | Inr (all_samples, hop_idx) \<Rightarrow>
          if sample_rate self = 0 then Inl ZeroDivisionError
          else Inr (all_samples,
                 \<lparr>num_symbols = length symbols, start_hop = start_hop_index, end_hop = hop_idx,
                  duration_sec = real (length all_samples) / real_of_int (sample_rate self),
                  hops_used = hop_idx - start_hop_index\<rparr>))"

text \<open>\<open>math.atan2(y, x)\<close> on reals.\<close>

definition py_atan2 :: "real \<Rightarrow> real \<Rightarrow> real" where
  "py_atan2 y x =
     (if 0 < x then arctan (y / x)
      else if x < 0 then (if 0 \<le> y then arctan (y / x) + pi else arctan (y / x) - pi)
      else if 0 < y then pi / 2
      else if y < 0 then - (pi / 2)
      else 0)"

definition decode_symbol ::
  "FrequencyHopper \<Rightarrow> real list \<Rightarrow> int \<Rightarrow> error + (real \<times> real \<times> real)" where
  "decode_symbol self samples hop_index =
     (case get_hop_freq self hop_index of
        Inl e \<Rightarrow> Inl e
      | Inr carrier_freq \<Rightarrow>
          if samples \<noteq> [] \<and> sample_rate self = 0 then Inl ZeroDivisionError
          else
            (let ts = map (\<lambda>i. real i / real_of_int (sample_rate self)) [0..<length samples];
                 i_samples = map2 (\<lambda>sample t. sample * cos (2 * pi * carrier_freq * t)) samples ts;
                 q_samples = map2 (\<lambda>sample t. sample * sin (2 * pi * carrier_freq * t)) samples ts;
                 window = 50;
                 i_filtered = (if window \<le> length i_samples
                               then sum_list (take window i_samples) / real window else 0);
                 q_filtered = (if window \<le> length q_samples
                               then sum_list (take window q_samples) / real window else 0);
                 amplitude = sqrt (i_filtered\<^sup>2 + q_filtered\<^sup>2);
                 phase = py_atan2 q_filtered i_filtered;
                 recovered_freq = carrier_freq
             in Inr (recovered_freq, amplitude, phase)))"

text \<open>
  A generator state for a three-channel grid (\<open>hop_range = (20000, 20300)\<close>, spacing
  100, the default dwell time and sample rate): the hop table is a permutation of the grid
  and \<open>hop_count\<close> is its length, as the constructor leaves them. The second state is
  the same with \<open>dwell_time_ms = 0\<close>.
\<close>

definition hopper_example :: FrequencyHopper where
  "hopper_example =
     \<lparr>secret_key = [1, 2, 3], hop_range = (20000, 20300), dwell_time_sec = 10 / 1000,
      hop_spacing = 100, sample_rate = 192000,
      hop_frequencies = [20200, 20000, 20100], hop_count = 3\<rparr>"

definition hopper_zero_dwell :: FrequencyHopper where
  "hopper_zero_dwell = hopper_example\<lparr>dwell_time_sec := 0 / 1000\<rparr>"

section \<open>ultrasonic\_compression.py: class UltrasonicOFDM\<close>

definition SAMPLE_RATE :: int where
  "SAMPLE_RATE = 192000"

definition OFDM_MIN_FREQ :: real where
  "OFDM_MIN_FREQ = 25000"

definition OFDM_MAX_FREQ :: real where
  "OFDM_MAX_FREQ = 45000"

definition OFDM_BANDWIDTH :: real where
  "OFDM_BANDWIDTH = OFDM_MAX_FREQ - OFDM_MIN_FREQ"

definition OFDM_NUM_CARRIERS :: int where
  "OFDM_NUM_CARRIERS = 64"

definition OFDM_CARRIER_SPACING :: real where
  "OFDM_CARRIER_SPACING = OFDM_BANDWIDTH / real_of_int OFDM_NUM_CARRIERS"

definition QAM_LEVELS :: "(string \<times> nat) list" where
  "QAM_LEVELS = [(''BPSK'', 2), (''QPSK'', 4), (''16QAM'', 16), (''64QAM'', 64)]"



record CompressionStats =
  raw_bytes :: nat
  compressed_bytes :: nat
  compression_ratio :: real
  transmission_time :: real
  bitrate_bps :: int
  efficiency :: real

record UltrasonicOFDM =
  ofdm_sample_rate :: int
  num_carriers :: int
  modulation :: string
  bits_per_symbol :: int
  carrier_freqs :: "real list"

text \<open>
  The constructor: \<open>QAM_LEVELS[modulation]\<close> is a KeyError for a name outside the table;
  nothing else is checked.
\<close>

definition UltrasonicOFDM_init :: "int \<Rightarrow> int \<Rightarrow> string \<Rightarrow> error + UltrasonicOFDM" where
  "UltrasonicOFDM_init rate n_carriers modulation_name =
     (case map_of QAM_LEVELS modulation_name of
        None \<Rightarrow> Inl KeyError
      | Some level \<Rightarrow>
          Inr \<lparr>ofdm_sample_rate = rate, num_carriers = n_carriers, modulation = modulation_name,
               bits_per_symbol = py_int (log 2 (real level)),
               carrier_freqs = map (\<lambda>i. OFDM_MIN_FREQ + real i * OFDM_CARRIER_SPACING)
                                 [0..<nat n_carriers]\<rparr>)"








text \<open>
  \<open>_qam_constellation\<close>. The only failure is the IndexError of \<open>angles[symbol]\<close>; the
  level tables are indexed by a masked value and cannot be left.
\<close>

definition qam_constellation :: "UltrasonicOFDM \<Rightarrow> int \<Rightarrow> error + (real \<times> real)" where
  "qam_constellation self symbol =
     (if modulation self = ''BPSK'' then Inr (if symbol = 1 then 1 else - 1, 0)
      else if modulation self = ''QPSK'' then
        (case py_index [45, 135, 225, 315] symbol of
           Inl e \<Rightarrow> Inl e
         | Inr a \<Rightarrow> (let angle = a * (pi / 180) in Inr (cos angle, sin angle)))
      else if modulation self = ''16QAM'' then
        (let levels = [- 3, - 1, 1, 3];
             i_idx = symbol AND 3;
             q_idx = drop_bit 2 symbol AND 3
         in Inr (real_of_int (levels ! nat i_idx) / 3, real_of_int (levels ! nat q_idx) / 3))
      else if modulation self = ''64QAM'' then
        (let levels = [- 7, - 5, - 3, - 1, 1, 3, 5, 7];
             i_idx = symbol AND 7;
             q_idx = drop_bit 3 symbol AND 7
         in Inr (real_of_int (levels ! nat i_idx) / 7, real_of_int (levels ! nat q_idx) / 7))
      else Inr (0, 0))"






text \<open>
  \<open>calculate_stats\<close>. \<open>len(samples) / self.sample_rate\<close> divides two ints: it is the
  ZeroDivisionError for a zero sample rate, the OverflowError for a quotient beyond the
  doubles, and the rounded quotient otherwise. \<open>(len(data) * 8) / transmission_time\<close>
  converts the int (OverflowError beyond the doubles) and divides floats
  (ZeroDivisionError for \<open>0.0\<close>); an infinite quotient is the OverflowError of
  \<open>int(bitrate)\<close>. \<open>OFDM_BANDWIDTH\<close> is the constant 20000.
\<close>

definition calculate_stats ::
  "UltrasonicOFDM \<Rightarrow> byte list \<Rightarrow> real list \<Rightarrow> error + CompressionStats" where
  "calculate_stats self data samples =
     (if ofdm_sample_rate self = 0 then Inl ZeroDivisionError
      else if overflows (real (length samples) / real_of_int (ofdm_sample_rate self))
        then Inl OverflowError
      else
        (let transmission_time =
               round64 (real (length samples) / real_of_int (ofdm_sample_rate self))
         in if overflows (real (length data * 8)) then Inl OverflowError
            else if transmission_time = 0 then Inl ZeroDivisionError
            else if overflows (round64 (real (length data * 8)) / transmission_time)
              then Inl OverflowError
            else
              (let bitrate = round64 (round64 (real (length data * 8)) / transmission_time);
                   efficiency = round64 (bitrate / OFDM_BANDWIDTH)
               in Inr \<lparr>raw_bytes = length data, compressed_bytes = length data,
                       compression_ratio = 1, transmission_time = transmission_time,
                       bitrate_bps = py_int bitrate, efficiency = efficiency\<rparr>)))"

text \<open>
  The encoders \<open>UltrasonicOFDM(modulation="16QAM")\<close> and
  \<open>UltrasonicOFDM(modulation="BPSK")\<close>, with the default sample rate and carrier count,
  as the constructor leaves them.
\<close>

definition ofdm_16qam :: UltrasonicOFDM where
  "ofdm_16qam =
     \<lparr>ofdm_sample_rate = 192000, num_carriers = 64, modulation = ''16QAM'',
      bits_per_symbol = 4,
      carrier_freqs = map (\<lambda>i. 25000 + real i * (625 / 2)) [0..<64]\<rparr>"

definition ofdm_bpsk :: UltrasonicOFDM where
  "ofdm_bpsk =
     \<lparr>ofdm_sample_rate = 192000, num_carriers = 64, modulation = ''BPSK'',
      bits_per_symbol = 1,
      carrier_freqs = map (\<lambda>i. 25000 + real i * (625 / 2)) [0..<64]\<rparr>"

section \<open>Properties\<close>


subsection \<open>Rounding to a double\<close>

lemma find_upto_cases:
  fixes a b :: int
  obtains (found) e where "a \<le> e" "e \<le> b" "find P [a..b] = Some e" "P e"
      "\<forall>j. a \<le> j \<and> j < e \<longrightarrow> \<not> P j"
    | (none) "find P [a..b] = None" "\<forall>j. a \<le> j \<and> j \<le> b \<longrightarrow> \<not> P j"
proof (cases "find P [a..b]")
  case None
  then have "\<forall>j. a \<le> j \<and> j \<le> b \<longrightarrow> \<not> P j"
    by (auto simp: find_None_iff)
  with None show ?thesis by (rule none)
next
  case (Some e)
  then obtain i where i: "i < length [a..b]"
    and p: "P ([a..b] ! i)" and e: "e = [a..b] ! i"
    and least: "\<forall>j<i. \<not> P ([a..b] ! j)"
    by (auto simp: find_Some_iff)
  from i have i': "a + int i \<le> b" by simp
  then have ei: "e = a + int i" using e by (simp add: nth_upto)
  have "\<not> P j" if "a \<le> j" "j < e" for j
  proof -
    from that ei have lt: "nat (j - a) < i" by simp
    with least have "\<not> P ([a..b] ! nat (j - a))" by blast
    moreover have "[a..b] ! nat (j - a) = j"
      using that ei i' by (simp add: nth_upto)
    ultimately show ?thesis by simp
  qed
  then have "\<forall>j. a \<le> j \<and> j < e \<longrightarrow> \<not> P j" by blast
  moreover have "a \<le> e" "e \<le> b" using ei i' by simp_all
  moreover have "P e" using p e by simp
  ultimately show ?thesis using Some found by blast
qed

lemma binade_cases:
  obtains (found) e where "- 1022 \<le> e" "e \<le> 1023" "binade x = e" "\<bar>x\<bar> < 2 powi (e + 1)"
      "\<forall>j. - 1022 \<le> j \<and> j < e \<longrightarrow> \<not> \<bar>x\<bar> < 2 powi (j + 1)"
    | (beyond) "binade x = 1024" "\<forall>j. - 1022 \<le> j \<and> j \<le> 1023 \<longrightarrow> \<not> \<bar>x\<bar> < 2 powi (j + 1)"
proof (rule find_upto_cases [where P = "\<lambda>e. \<bar>x\<bar> < 2 powi (e + 1)" and a = "- 1022" and b = 1023])
  fix e :: int
  assume a: "- 1022 \<le> e" "e \<le> 1023"
    and f: "find (\<lambda>e. \<bar>x\<bar> < 2 powi (e + 1)) [- 1022..1023] = Some e"
    and p: "\<bar>x\<bar> < 2 powi (e + 1)"
    and l: "\<forall>j. - 1022 \<le> j \<and> j < e \<longrightarrow> \<not> \<bar>x\<bar> < 2 powi (j + 1)"
  from f have "binade x = e" unfolding binade_def by (simp only: option.case)
  with a p l show thesis by (intro found)
next
  assume f: "find (\<lambda>e. \<bar>x\<bar> < 2 powi (e + 1)) [- 1022..1023] = None"
    and l: "\<forall>j. - 1022 \<le> j \<and> j \<le> 1023 \<longrightarrow> \<not> \<bar>x\<bar> < 2 powi (j + 1)"
  from f have "binade x = 1024" unfolding binade_def by (simp only: option.case)
  then show thesis using l by (intro beyond)
qed

lemma binade_bounds: "- 1022 \<le> binade x \<and> binade x \<le> 1024"
  by (cases x rule: binade_cases) simp_all

lemma binade_le:
  assumes "\<bar>x\<bar> < 2 powi (k + 1)" and "- 1022 \<le> k" and "k \<le> 1023"
  shows "binade x \<le> k"
proof (cases x rule: binade_cases)
  case (found e)
  show ?thesis
  proof (rule ccontr)
    assume "\<not> binade x \<le> k"
    with found(3) have "k < e" by simp
    with found(5) assms(2) have "\<not> \<bar>x\<bar> < 2 powi (k + 1)" by blast
    with assms(1) show False by contradiction
  qed
next
  case beyond
  with assms show ?thesis by blast
qed

lemma binade_eq:
  assumes "\<bar>x\<bar> < 2 powi (k + 1)" and "- 1022 \<le> k" and "k \<le> 1023"
    and "k = - 1022 \<or> 2 powi k \<le> \<bar>x\<bar>"
  shows "binade x = k"
proof -
  have le: "binade x \<le> k" using assms(1-3) by (rule binade_le)
  have "k \<le> binade x"
  proof (cases x rule: binade_cases)
    case (found e)
    show ?thesis
    proof (rule ccontr)
      assume "\<not> k \<le> binade x"
      with found(3) have lt: "e < k" by simp
      with found(1) have "k \<noteq> - 1022" by simp
      with assms(4) have "2 powi k \<le> \<bar>x\<bar>" by simp
      moreover have "(2::real) powi (e + 1) \<le> 2 powi k"
        using lt by (intro power_int_increasing) simp_all
      ultimately show False using found(4) by linarith
    qed
  next
    case beyond
    with assms(3) show ?thesis by simp
  qed
  with le show ?thesis by simp
qed

lemma binade_beyond:
  assumes "2 powi 1024 \<le> \<bar>x\<bar>"
  shows "binade x = 1024"
proof (cases x rule: binade_cases)
  case (found e)
  have "(2::real) powi (e + 1) \<le> 2 powi 1024"
    using found(2) by (intro power_int_increasing) simp_all
  with found(4) assms show ?thesis by linarith
next
  case beyond
  then show ?thesis by simp
qed

lemma round_half_even_between:
  "\<lfloor>m\<rfloor> \<le> round_half_even m \<and> round_half_even m \<le> \<lceil>m\<rceil>"
proof -
  have "\<lfloor>m\<rfloor> + 1 \<le> \<lceil>m\<rceil>" if "real_of_int \<lfloor>m\<rfloor> < m"
    using that by (simp add: ceiling_altdef)
  moreover have "\<lfloor>m\<rfloor> \<le> \<lceil>m\<rceil>" by (rule floor_le_ceiling)
  ultimately show ?thesis
    by (auto simp: round_half_even_def Let_def)
qed

lemma round_half_even_of_int: "round_half_even (real_of_int n) = n"
  by (simp add: round_half_even_def)

lemma round64_exact:
  assumes "\<bar>x\<bar> < 2 powi (k + 1)" and "- 1022 \<le> k" and "k \<le> 1023"
    and "x * 2 powi (52 - k) \<in> \<int>"
  shows "round64 x = x"
proof -
  let ?e = "binade x"
  have le: "?e \<le> k" using assms(1-3) by (rule binade_le)
  have "(2::real) powi (52 - ?e) = 2 powi (52 - k) * 2 powi (k - ?e)"
    by (simp add: power_int_add [symmetric])
  also have "(2::real) powi (k - ?e) = 2 ^ nat (k - ?e)"
    using le by (simp add: power_int_def)
  finally have "x * 2 powi (52 - ?e) = (x * 2 powi (52 - k)) * 2 ^ nat (k - ?e)"
    by simp
  also have "\<dots> \<in> \<int>"
  proof (rule Ints_mult [OF assms(4)])
    show "(2::real) ^ nat (k - ?e) \<in> \<int>" by (intro Ints_power) simp
  qed
  finally obtain n where n: "x * 2 powi (52 - ?e) = real_of_int n"
    by (auto elim: Ints_cases)
  have u: "x / 2 powi (?e - 52) = x * 2 powi (52 - ?e)"
    by (simp add: power_int_diff field_simps)
  have "round64 x = real_of_int n * 2 powi (?e - 52)"
    by (simp add: round64_def Let_def u n round_half_even_of_int)
  also have "\<dots> = x * (2 powi (52 - ?e) * 2 powi (?e - 52))"
    by (simp add: n [symmetric])
  also have "(2::real) powi (52 - ?e) * 2 powi (?e - 52) = 1"
    by (simp add: power_int_add [symmetric])
  finally show ?thesis by simp
qed

lemma round64_of_int:
  assumes "\<bar>n\<bar> < 2 ^ 53"
  shows "round64 (real_of_int n) = real_of_int n"
proof (rule round64_exact [where k = 52])
  have "\<bar>real_of_int n\<bar> = real_of_int \<bar>n\<bar>" by simp
  also have "\<dots> < real_of_int (2 ^ 53)" using assms by (simp only: of_int_less_iff)
  finally show "\<bar>real_of_int n\<bar> < 2 powi (52 + 1)" by simp
qed simp_all

lemma round64_sign:
  "(x \<le> 0 \<longrightarrow> round64 x \<le> 0) \<and> (0 \<le> x \<longrightarrow> 0 \<le> round64 x)"
proof -
  let ?u = "(2::real) powi (binade x - 52)"
  have u: "0 < ?u" by (simp add: zero_less_power_int)
  have "round_half_even (x / ?u) \<le> 0" if "x \<le> 0"
  proof -
    from that u have "x / ?u \<le> 0" by (simp add: divide_le_0_iff)
    then have "\<lceil>x / ?u\<rceil> \<le> 0" by (simp add: ceiling_le_zero)
    with round_half_even_between [of "x / ?u"] show ?thesis by linarith
  qed
  moreover have "0 \<le> round_half_even (x / ?u)" if "0 \<le> x"
  proof -
    from that u have "0 \<le> x / ?u" by simp
    then have "0 \<le> \<lfloor>x / ?u\<rfloor>" by simp
    with round_half_even_between [of "x / ?u"] show ?thesis by linarith
  qed
  ultimately show ?thesis
    using u by (auto simp: round64_def Let_def mult_le_0_iff zero_le_mult_iff)
qed

lemma overflows_beyond:
  assumes "2 powi 1024 \<le> \<bar>x\<bar>"
  shows "overflows x"
proof -
  have b: "binade x = 1024" using assms by (rule binade_beyond)
  let ?u = "(2::real) powi 972"
  let ?r = "round_half_even (x / ?u)"
  have p: "(2::real) powi 1024 = 2 ^ 52 * ?u"
    by (simp add: power_add [symmetric])
  have "2 ^ 52 \<le> \<bar>?r\<bar>"
  proof (cases "0 \<le> x")
    case True
    with assms p have "2 ^ 52 \<le> x / ?u" by (simp add: le_divide_eq)
    then have "(2::int) ^ 52 \<le> \<lfloor>x / ?u\<rfloor>" by (simp add: le_floor_iff)
    with round_half_even_between [of "x / ?u"] show ?thesis by linarith
  next
    case False
    with assms p have "x / ?u \<le> - (2 ^ 52)" by (simp add: divide_le_eq)
    then have "\<lceil>x / ?u\<rceil> \<le> - ((2::int) ^ 52)" by (simp add: ceiling_le_iff)
    with round_half_even_between [of "x / ?u"] show ?thesis by linarith
  qed
  then have "real_of_int (2 ^ 52) \<le> real_of_int \<bar>?r\<bar>" by (simp only: of_int_le_iff)
  then have "2 ^ 52 * ?u \<le> \<bar>real_of_int ?r\<bar> * ?u"
    by (intro mult_right_mono) simp_all
  then show ?thesis
    by (simp add: overflows_def round64_def Let_def b p abs_mult)
qed

lemma not_overflows_exact:
  assumes "round64 x = x" and "\<bar>x\<bar> < 2 powi 1024"
  shows "\<not> overflows x"
  using assms by (simp add: overflows_def)

subsection \<open>The hop table\<close>

lemma bytes_of_int_cases:
  "bytes_of_int i = (if 0 \<le> i \<and> i < 256 then Inr [word_of_int i] else Inl ValueError)"
  by (simp add: bytes_of_int_def)

lemma mset_pop:
  assumes "idx < length xs"
  shows "mset (take idx xs @ drop (Suc idx) xs) + {#xs ! idx#} = mset xs"
proof -
  have "xs = take idx xs @ xs ! idx # drop (Suc idx) xs"
    using assms by (rule id_take_nth_drop)
  then have "mset xs = mset (take idx xs @ xs ! idx # drop (Suc idx) xs)"
    by simp
  then show ?thesis by simp
qed

lemma shuffle_loop_perm:
  "length js = length remaining \<Longrightarrow> \<forall>i\<in>set js. 0 \<le> i \<and> i < 256 \<Longrightarrow>
   \<exists>xs. shuffle_loop js st remaining shuffled = Inr xs \<and>
        mset xs = mset shuffled + mset remaining"
proof (induction js arbitrary: st remaining shuffled)
  case Nil
  then show ?case by simp
next
  case (Cons i js)
  define st' where "st' = sha256 (st @ [word_of_int i])"
  define idx where "idx = int_from_bytes_big (take 4 st') mod length remaining"
  from Cons.prems have ne: "remaining \<noteq> []" by auto
  then have lt: "idx < length remaining" by (simp add: idx_def)
  have len: "length js = length (take idx remaining @ drop (Suc idx) remaining)"
    using Cons.prems(1) lt by simp
  from Cons.prems(2) have ok: "\<forall>i\<in>set js. 0 \<le> i \<and> i < 256" and i: "0 \<le> i \<and> i < 256"
    by simp_all
  from Cons.IH [OF len ok, of st' "shuffled @ [remaining ! idx]"]
  obtain xs where xs: "shuffle_loop js st' (take idx remaining @ drop (Suc idx) remaining)
        (shuffled @ [remaining ! idx]) = Inr xs"
    and m: "mset xs = mset (shuffled @ [remaining ! idx]) +
        mset (take idx remaining @ drop (Suc idx) remaining)"
    by blast
  have step: "shuffle_loop (i # js) st remaining shuffled = Inr xs"
    using i ne xs by (simp add: bytes_of_int_def st'_def idx_def Let_def)
  have "mset xs = mset shuffled + mset remaining"
    using m mset_pop [OF lt] by (simp add: ac_simps)
  with step show ?case by blast
qed

lemma shuffle_loop_ValueError:
  "length js \<le> length remaining \<Longrightarrow> \<exists>i\<in>set js. \<not> (0 \<le> i \<and> i < 256) \<Longrightarrow>
   shuffle_loop js st remaining shuffled = Inl ValueError"
proof (induction js arbitrary: st remaining shuffled)
  case Nil
  then show ?case by simp
next
  case (Cons i js)
  show ?case
  proof (cases "0 \<le> i \<and> i < 256")
    case False
    then have "bytes_of_int i = Inl ValueError" by (simp add: bytes_of_int_def)
    then show ?thesis by simp
  next
    case True
    define st' where "st' = sha256 (st @ [word_of_int i])"
    define idx where "idx = int_from_bytes_big (take 4 st') mod length remaining"
    from Cons.prems(1) have ne: "remaining \<noteq> []" by auto
    then have lt: "idx < length remaining" by (simp add: idx_def)
    have len: "length js \<le> length (take idx remaining @ drop (Suc idx) remaining)"
      using Cons.prems(1) lt by simp
    from Cons.prems(2) True have bad: "\<exists>i\<in>set js. \<not> (0 \<le> i \<and> i < 256)" by auto
    have "shuffle_loop (i # js) st remaining shuffled =
          shuffle_loop js st' (take idx remaining @ drop (Suc idx) remaining)
            (shuffled @ [remaining ! idx])"
      using True ne by (simp add: bytes_of_int_def st'_def idx_def Let_def)
    then show ?thesis using Cons.IH [OF len bad] by simp
  qed
qed

text \<open>
  The shuffle moves list positions and never inspects an element: shuffling the images
  of a list under \<open>f\<close> is the image of shuffling the list.
\<close>

lemma shuffle_loop_map:
  "shuffle_loop js st (map f remaining) (map f shuffled) =
     map_sum id (map f) (shuffle_loop js st remaining shuffled)"
proof (induction js arbitrary: st remaining shuffled)
  case Nil
  then show ?case by simp
next
  case (Cons i js)
  show ?case
  proof (cases "bytes_of_int i")
    case (Inl e)
    then show ?thesis by simp
  next
    case (Inr b)
    show ?thesis
    proof (cases "remaining = []")
      case True
      with Inr show ?thesis by simp
    next
      case False
      define st' where "st' = sha256 (st @ b)"
      define idx where "idx = int_from_bytes_big (take 4 st') mod length remaining"
      from False have lt: "idx < length remaining" by (simp add: idx_def)
      have "shuffle_loop (i # js) st (map f remaining) (map f shuffled) =
            shuffle_loop js st' (map f (take idx remaining @ drop (Suc idx) remaining))
              (map f (shuffled @ [remaining ! idx]))"
        using Inr False lt by (simp add: st'_def idx_def Let_def take_map drop_map)
      also have "\<dots> = map_sum id (map f)
            (shuffle_loop js st' (take idx remaining @ drop (Suc idx) remaining)
              (shuffled @ [remaining ! idx]))"
        by (rule Cons.IH)
      also have "\<dots> = map_sum id (map f) (shuffle_loop (i # js) st remaining shuffled)"
        using Inr False by (simp add: st'_def idx_def Let_def)
      finally show ?thesis .
    qed
  qed
qed

lemma length_channel_grid: "length (channel_grid rng spacing n) = nat n"
  by (simp add: channel_grid_def)

lemma generate_hop_table_ok:
  assumes "num_channels_of rng spacing = Inr n" and "n \<le> 256"
  shows "\<exists>xs idxs. generate_hop_table key rng spacing = Inr xs \<and>
           mset xs = mset (channel_grid rng spacing n) \<and>
           mset idxs = mset [0..<nat n] \<and>
           xs = map (\<lambda>i. channel_grid rng spacing n ! i) idxs"
proof -
  let ?g = "channel_grid rng spacing n"
  let ?js = "map int [0..<length ?g]"
  have len: "length ?g = nat n" by (rule length_channel_grid)
  have ok: "\<forall>i\<in>set ?js. 0 \<le> i \<and> i < 256"
    using assms(2) len by auto
  have "length ?js = length [0..<nat n]" using len by simp
  from shuffle_loop_perm [OF this ok, of "sha256 key" "[]"]
  obtain idxs where i: "shuffle_loop ?js (sha256 key) [0..<nat n] [] = Inr idxs"
    and mi: "mset idxs = mset [0..<nat n]"
    by auto
  have g: "?g = map (\<lambda>i. ?g ! i) [0..<nat n]"
    using len by (metis map_nth)
  have "shuffle_loop ?js (sha256 key) (map (\<lambda>i. ?g ! i) [0..<nat n]) (map (\<lambda>i. ?g ! i) [])
        = map_sum id (map (\<lambda>i. ?g ! i)) (shuffle_loop ?js (sha256 key) [0..<nat n] [])"
    by (rule shuffle_loop_map)
  then have r: "shuffle_loop ?js (sha256 key) ?g [] = Inr (map (\<lambda>i. ?g ! i) idxs)"
    using i g by simp
  have "mset (map (\<lambda>i. ?g ! i) idxs) = image_mset (\<lambda>i. ?g ! i) (mset [0..<nat n])"
    using mi by (metis mset_map)
  also have "\<dots> = mset (map (\<lambda>i. ?g ! i) [0..<nat n])" by simp
  also have "\<dots> = mset ?g" using g by simp
  finally have m: "mset (map (\<lambda>i. ?g ! i) idxs) = mset ?g" .
  have "generate_hop_table key rng spacing = Inr (map (\<lambda>i. ?g ! i) idxs)"
    using assms(1) r by (simp add: generate_hop_table_def Let_def)
  with m mi show ?thesis by blast
qed

lemma generate_hop_table_too_many:
  assumes "num_channels_of rng spacing = Inr n" and "256 < n"
  shows "generate_hop_table key rng spacing = Inl ValueError"
proof -
  let ?g = "channel_grid rng spacing n"
  have n: "256 < length ?g"
    using assms(2) by (simp add: length_channel_grid)
  then have "int 256 \<in> set (map int [0..<length ?g])"
    by (simp del: of_nat_numeral)
  then have "\<exists>i\<in>set (map int [0..<length ?g]). \<not> (0 \<le> i \<and> i < 256)"
    by (intro bexI [of _ "int 256"]) simp_all
  moreover have "length (map int [0..<length ?g]) \<le> length ?g" by simp
  ultimately have "shuffle_loop (map int [0..<length ?g]) (sha256 key) ?g [] = Inl ValueError"
    by (rule shuffle_loop_ValueError [rotated])
  then show ?thesis
    using assms(1) by (simp add: generate_hop_table_def Let_def)
qed

lemma generate_hop_table_error:
  assumes "num_channels_of rng spacing = Inl e"
  shows "generate_hop_table key rng spacing = Inl e"
  using assms by (simp add: generate_hop_table_def)

lemma generate_hop_table_Inr:
  assumes "generate_hop_table key rng spacing = Inr xs"
  shows "\<exists>n idxs. num_channels_of rng spacing = Inr n \<and> n \<le> 256 \<and>
           mset xs = mset (channel_grid rng spacing n) \<and>
           mset idxs = mset [0..<nat n] \<and>
           xs = map (\<lambda>i. channel_grid rng spacing n ! i) idxs"
proof (cases "num_channels_of rng spacing")
  case (Inl e)
  with assms generate_hop_table_error [OF Inl, of key] show ?thesis by simp
next
  case (Inr n)
  have le: "n \<le> 256"
  proof (rule ccontr)
    assume "\<not> ?thesis"
    then have "256 < n" by simp
    from generate_hop_table_too_many [OF Inr this]
    have "generate_hop_table key rng spacing = Inl ValueError" .
    with assms show False by simp
  qed
  from generate_hop_table_ok [OF Inr le, of key] assms Inr le show ?thesis
    by auto
qed

lemma init_Inr_iff:
  "FrequencyHopper_init key_arg token rng dwell spacing rate = Inr h \<longleftrightarrow>
   (\<exists>table. generate_hop_table
       (case key_arg of None \<Rightarrow> token | Some k \<Rightarrow> if k = [] then token else k)
       rng spacing = Inr table \<and>
     h = \<lparr>secret_key = (case key_arg of None \<Rightarrow> token | Some k \<Rightarrow> if k = [] then token else k),
          hop_range = rng, dwell_time_sec = dwell / 1000,
          hop_spacing = spacing, sample_rate = rate,
          hop_frequencies = table, hop_count = int (length table)\<rparr>)"
  by (auto simp: FrequencyHopper_init_def Let_def split: sum.splits)

lemma init_Inl_iff:
  "FrequencyHopper_init key_arg token rng dwell spacing rate = Inl e \<longleftrightarrow>
   generate_hop_table
       (case key_arg of None \<Rightarrow> token | Some k \<Rightarrow> if k = [] then token else k)
       rng spacing = Inl e"
  by (auto simp: FrequencyHopper_init_def Let_def split: sum.splits)

lemma init_succeeds:
  assumes "num_channels_of rng spacing = Inr n" and "n \<le> 256"
  shows "\<exists>h. FrequencyHopper_init key_arg token rng dwell spacing rate = Inr h \<and>
           mset (hop_frequencies h) = mset (channel_grid rng spacing n) \<and>
           hop_count h = int (length (hop_frequencies h)) \<and>
           sample_rate h = rate \<and> dwell_time_sec h = dwell / 1000 \<and>
           secret_key h = (case key_arg of None \<Rightarrow> token
                           | Some k \<Rightarrow> if k = [] then token else k)"
proof -
  obtain xs where "generate_hop_table
       (case key_arg of None \<Rightarrow> token | Some k \<Rightarrow> if k = [] then token else k)
       rng spacing = Inr xs" and "mset xs = mset (channel_grid rng spacing n)"
    using generate_hop_table_ok [OF assms] by blast
  then show ?thesis
    by (simp add: FrequencyHopper_init_def Let_def)
qed

text \<open>The channel count and grid of configurations whose arithmetic is exact.\<close>

lemma num_channels_of_exact:
  assumes "spacing \<noteq> 0"
    and "round64 (snd rng - fst rng) = snd rng - fst rng"
    and "round64 ((snd rng - fst rng) / spacing) = (snd rng - fst rng) / spacing"
    and "\<bar>snd rng - fst rng\<bar> < 2 powi 1024" and "\<bar>(snd rng - fst rng) / spacing\<bar> < 2 powi 1024"
  shows "num_channels_of rng spacing = Inr (py_int ((snd rng - fst rng) / spacing))"
  using assms by (simp add: num_channels_of_def overflows_def)

lemma small_examples:
  "num_channels_of (20000, 20300) 100 = Inr 3"
  "num_channels_of (20000, 20200) 100 = Inr 2"
  "num_channels_of (20000, 40000) 50 = Inr 400"
  "num_channels_of (100, 50) 100 = Inr 0"
  "num_channels_of (50, 100) (- 100) = Inr 0"
  "channel_grid (20000, 20300) 100 3 = [20000, 20100, 20200]"
proof -
  have i: "round64 (real_of_int n) = real_of_int n" if "\<bar>n\<bar> < 2 ^ 53" for n
    using that by (rule round64_of_int)
  have r: "round64 300 = 300" "round64 200 = 200" "round64 20000 = 20000" "round64 3 = 3"
    "round64 2 = 2" "round64 400 = 400" "round64 (- 50) = - 50" "round64 50 = 50"
    "round64 0 = 0" "round64 1 = 1" "round64 100 = 100" "round64 20100 = 20100"
    "round64 20200 = 20200"
    using i [of 300] i [of 200] i [of 20000] i [of 3] i [of 2] i [of 400] i [of "- 50"] i [of 50]
      i [of 0] i [of 1] i [of 100] i [of 20100] i [of 20200]
    by simp_all
  have h: "round64 (- (1 / 2)) = - (1 / 2)"
    by (rule round64_exact [where k = 0]) simp_all
  have c: "\<lceil>- (1 / 2) :: real\<rceil> = 0"
    by (rule ceiling_unique) simp_all
  show "num_channels_of (20000, 20300) 100 = Inr 3"
    by (subst num_channels_of_exact) (simp_all add: r py_int_def)
  show "num_channels_of (20000, 20200) 100 = Inr 2"
    by (subst num_channels_of_exact) (simp_all add: r py_int_def)
  show "num_channels_of (20000, 40000) 50 = Inr 400"
    by (subst num_channels_of_exact) (simp_all add: r py_int_def)
  show "num_channels_of (100, 50) 100 = Inr 0"
    by (subst num_channels_of_exact) (simp_all add: r h c py_int_def)
  show "num_channels_of (50, 100) (- 100) = Inr 0"
    by (subst num_channels_of_exact) (simp_all add: r h c py_int_def)
  show "channel_grid (20000, 20300) 100 3 = [20000, 20100, 20200]"
    by (simp add: channel_grid_def upt_conv_Cons r)
qed

lemma num_channels_of_overflow:
  assumes "spacing \<noteq> 0"
    and "overflows (snd rng - fst rng) \<or> overflows (round64 (snd rng - fst rng) / spacing)"
  shows "num_channels_of rng spacing = Inl OverflowError"
  using assms by (auto simp: num_channels_of_def)

lemma tiny_spacing_overflows:
  "overflows (round64 (40000 - 20000) / (1 / 2 ^ 1070))"
proof -
  have "round64 (real_of_int 20000) = real_of_int 20000"
    by (rule round64_of_int) simp
  then have "round64 (40000 - 20000) = 20000" by simp
  moreover have "overflows (20000 / (1 / 2 ^ 1070))"
    by (rule overflows_beyond) simp
  ultimately show ?thesis by simp
qed

text \<open>
  C9. When the channel count the constructor computes,
  \<open>int((freq_max - freq_min) / spacing)\<close> in double arithmetic, is above 256, construction
  raises: iteration 256 of the shuffle evaluates \<open>bytes([256])\<close>, which is a ValueError.
  (When the quotient is not a finite double there is no count: \<open>int()\<close> raises
  OverflowError, and construction fails as well.)
\<close>

theorem hop_table_over_256_channels_raises:
  "(spacing \<noteq> 0 \<and> \<not> overflows (freq_max - freq_min) \<and>
    \<not> overflows (round64 (freq_max - freq_min) / spacing) \<and>
    256 < \<lfloor>round64 (round64 (freq_max - freq_min) / spacing)\<rfloor> \<longrightarrow>
      FrequencyHopper_init key_arg token (freq_min, freq_max) dwell spacing rate
        = Inl ValueError) \<and>
   (spacing \<noteq> 0 \<and> (overflows (freq_max - freq_min) \<or>
      overflows (round64 (freq_max - freq_min) / spacing)) \<longrightarrow>
      FrequencyHopper_init key_arg token (freq_min, freq_max) dwell spacing rate
        = Inl OverflowError)"
proof (intro conjI impI)
  let ?q = "round64 (round64 (freq_max - freq_min) / spacing)"
  assume a: "spacing \<noteq> 0 \<and> \<not> overflows (freq_max - freq_min) \<and>
    \<not> overflows (round64 (freq_max - freq_min) / spacing) \<and> 256 < \<lfloor>?q\<rfloor>"
  then have "0 \<le> ?q" by (simp add: less_floor_iff)
  then have "py_int ?q = \<lfloor>?q\<rfloor>" by (simp add: py_int_def)
  with a have n: "num_channels_of (freq_min, freq_max) spacing = Inr \<lfloor>?q\<rfloor>"
    by (simp add: num_channels_of_def)
  from a have "256 < \<lfloor>?q\<rfloor>" by simp
  from generate_hop_table_too_many [OF n this]
  show "FrequencyHopper_init key_arg token (freq_min, freq_max) dwell spacing rate
        = Inl ValueError"
    by (simp only: init_Inl_iff)
next
  assume "spacing \<noteq> 0 \<and> (overflows (freq_max - freq_min) \<or>
      overflows (round64 (freq_max - freq_min) / spacing))"
  then have "num_channels_of (freq_min, freq_max) spacing = Inl OverflowError"
    by (intro num_channels_of_overflow) simp_all
  from generate_hop_table_error [OF this]
  show "FrequencyHopper_init key_arg token (freq_min, freq_max) dwell spacing rate
        = Inl OverflowError"
    by (simp only: init_Inl_iff)
qed

theorem hop_table_over_256_channels_raises_witness:
  "(50::real) \<noteq> 0 \<and> \<not> overflows (40000 - 20000) \<and>
   \<not> overflows (round64 (40000 - 20000) / 50) \<and>
   256 < \<lfloor>round64 (round64 (40000 - 20000) / 50)\<rfloor> \<and>
   FrequencyHopper_init (Some [1, 2, 3]) [] (20000, 40000) 10 50 192000 = Inl ValueError \<and>
   overflows (round64 (40000 - 20000) / (1 / 2 ^ 1070)) \<and>
   FrequencyHopper_init (Some [1, 2, 3]) [] (20000, 40000) 10 (1 / 2 ^ 1070) 192000
     = Inl OverflowError"
proof -
  have i: "round64 (real_of_int n) = real_of_int n" if "\<bar>n\<bar> < 2 ^ 53" for n
    using that by (rule round64_of_int)
  have r: "round64 20000 = 20000" "round64 400 = 400"
    using i [of 20000] i [of 400] by simp_all
  have a: "(50::real) \<noteq> 0 \<and> \<not> overflows (40000 - 20000) \<and>
   \<not> overflows (round64 (40000 - 20000) / 50) \<and>
   256 < \<lfloor>round64 (round64 (40000 - 20000) / 50)\<rfloor>"
    by (simp add: overflows_def r)
  have b: "(1 / 2 ^ 1070 :: real) \<noteq> 0 \<and> (overflows (40000 - 20000) \<or>
      overflows (round64 (40000 - 20000) / (1 / 2 ^ 1070)))"
    using tiny_spacing_overflows by simp
  from hop_table_over_256_channels_raises [where freq_min = 20000 and freq_max = 40000
      and spacing = 50 and key_arg = "Some [1, 2, 3]" and token = "[]" and dwell = 10
      and rate = 192000] a
  have c: "FrequencyHopper_init (Some [1, 2, 3]) [] (20000, 40000) 10 50 192000 = Inl ValueError"
    by blast
  from hop_table_over_256_channels_raises [where freq_min = 20000 and freq_max = 40000
      and spacing = "1 / 2 ^ 1070" and key_arg = "Some [1, 2, 3]" and token = "[]" and dwell = 10
      and rate = 192000] b
  have d: "FrequencyHopper_init (Some [1, 2, 3]) [] (20000, 40000) 10 (1 / 2 ^ 1070) 192000
     = Inl OverflowError"
    by blast
  from a c d tiny_spacing_overflows show ?thesis by blast
qed

text \<open>
  C2. Whenever construction yields a generator, its hop sequence is a permutation of the
  ordered channel grid the constructor built: the same entries with the same
  multiplicities, each grid position \<open>0, ..., count - 1\<close> taken exactly once.
\<close>

theorem hop_sequence_is_permutation_of_grid:
  assumes "FrequencyHopper_init key_arg token (freq_min, freq_max) dwell spacing rate = Inr h"
  shows "\<exists>count idxs.
           num_channels_of (freq_min, freq_max) spacing = Inr count \<and>
           mset (hop_frequencies h) = mset (channel_grid (freq_min, freq_max) spacing count) \<and>
           mset idxs = mset [0..<nat count] \<and> distinct idxs \<and>
           hop_frequencies h =
             map (\<lambda>i. channel_grid (freq_min, freq_max) spacing count ! i) idxs"
proof -
  from assms obtain table where
    t: "generate_hop_table
          (case key_arg of None \<Rightarrow> token | Some k \<Rightarrow> if k = [] then token else k)
          (freq_min, freq_max) spacing = Inr table"
    and h: "hop_frequencies h = table"
    by (auto simp: init_Inr_iff)
  from generate_hop_table_Inr [OF t] obtain n idxs where
    n: "num_channels_of (freq_min, freq_max) spacing = Inr n"
    and m: "mset table = mset (channel_grid (freq_min, freq_max) spacing n)"
    and mi: "mset idxs = mset [0..<nat n]"
    and tb: "table = map (\<lambda>i. channel_grid (freq_min, freq_max) spacing n ! i) idxs"
    by blast
  have "distinct idxs"
    using mi by (metis distinct_upt mset_eq_imp_distinct_iff)
  with n m mi tb h show ?thesis
    by (intro exI [of _ n] exI [of _ idxs]) simp
qed

theorem hop_sequence_is_permutation_of_grid_witness:
  "\<exists>h. FrequencyHopper_init (Some [1, 2, 3]) [] (20000, 20300) 10 100 192000 = Inr h \<and>
       mset (hop_frequencies h) = {#20000, 20100, 20200#} \<and>
       (\<exists>idxs. mset idxs = mset [0..<3] \<and> distinct idxs \<and>
          hop_frequencies h = map (\<lambda>i. [20000, 20100, 20200] ! i) idxs)"
proof -
  from init_succeeds [OF small_examples(1), of "Some [1, 2, 3]" "[]" 10 192000]
  obtain h where h: "FrequencyHopper_init (Some [1, 2, 3]) [] (20000, 20300) 10 100 192000 = Inr h"
    by auto
  from hop_sequence_is_permutation_of_grid [OF h] obtain count idxs where
    c: "num_channels_of (20000, 20300) 100 = Inr count"
    and m: "mset (hop_frequencies h) = mset (channel_grid (20000, 20300) 100 count)"
    and mi: "mset idxs = mset [0..<nat count]" and d: "distinct idxs"
    and t: "hop_frequencies h = map (\<lambda>i. channel_grid (20000, 20300) 100 count ! i) idxs"
    by blast
  from c have count: "count = 3" by (simp add: small_examples)
  have "mset (hop_frequencies h) = {#20000, 20100, 20200#}"
    using m by (simp add: count small_examples ac_simps)
  moreover have "mset idxs = mset [0..<3] \<and> distinct idxs \<and>
          hop_frequencies h = map (\<lambda>i. [20000, 20100, 20200] ! i) idxs"
    using mi d t by (simp add: count small_examples)
  ultimately show ?thesis using h by blast
qed

text \<open>
  C4 (as stated). \<open>hop_range = (100, 50)\<close> with the default spacing constructs a generator
  with an empty channel grid; nothing is raised.
\<close>

theorem inverted_hop_range_is_accepted:
  "FrequencyHopper_init (Some [1, 2, 3]) [] (100, 50) 10 100 192000 =
     Inr \<lparr>secret_key = [1, 2, 3], hop_range = (100, 50), dwell_time_sec = 10 / 1000,
          hop_spacing = 100, sample_rate = 192000, hop_frequencies = [], hop_count = 0\<rparr>"
  by (simp add: FrequencyHopper_init_def generate_hop_table_def small_examples channel_grid_def)

text \<open>
  C4 (amended). The constructor validates nothing: spacing 0 is the ZeroDivisionError of
  the channel count; an empty or inverted range with positive spacing, and a proper range
  with negative spacing, construct a generator whose channel grid is empty, as long as the
  quotient is a finite double; a quotient that is not is the OverflowError of \<open>int()\<close>.
\<close>

theorem init_range_and_spacing_outcomes:
  "(spacing = 0 \<longrightarrow>
      FrequencyHopper_init key_arg token (freq_min, freq_max) dwell spacing rate
        = Inl ZeroDivisionError) \<and>
   (((freq_max \<le> freq_min \<and> 0 < spacing) \<or> (freq_min \<le> freq_max \<and> spacing < 0)) \<and>
    \<not> overflows (freq_max - freq_min) \<and>
    \<not> overflows (round64 (freq_max - freq_min) / spacing) \<longrightarrow>
      (\<exists>h. FrequencyHopper_init key_arg token (freq_min, freq_max) dwell spacing rate = Inr h \<and>
           hop_frequencies h = [] \<and> hop_count h = 0)) \<and>
   (spacing \<noteq> 0 \<and> (overflows (freq_max - freq_min) \<or>
      overflows (round64 (freq_max - freq_min) / spacing)) \<longrightarrow>
      FrequencyHopper_init key_arg token (freq_min, freq_max) dwell spacing rate
        = Inl OverflowError)"
proof (intro conjI impI)
  assume "spacing = 0"
  then show "FrequencyHopper_init key_arg token (freq_min, freq_max) dwell spacing rate
      = Inl ZeroDivisionError"
    by (simp add: FrequencyHopper_init_def generate_hop_table_def num_channels_of_def)
next
  let ?d = "round64 (freq_max - freq_min)"
  let ?q = "round64 (?d / spacing)"
  assume a: "((freq_max \<le> freq_min \<and> 0 < spacing) \<or> (freq_min \<le> freq_max \<and> spacing < 0)) \<and>
    \<not> overflows (freq_max - freq_min) \<and> \<not> overflows (?d / spacing)"
  then have s: "spacing \<noteq> 0" by auto
  have "?d / spacing \<le> 0"
    using a round64_sign [of "freq_max - freq_min"] by (auto simp: divide_le_0_iff)
  then have "?q \<le> 0"
    using round64_sign [of "?d / spacing"] by simp
  then have "py_int ?q \<le> 0"
    by (auto simp: py_int_def ceiling_le_zero)
  moreover have "num_channels_of (freq_min, freq_max) spacing = Inr (py_int ?q)"
    using a s by (simp add: num_channels_of_def)
  ultimately show "\<exists>h. FrequencyHopper_init key_arg token (freq_min, freq_max) dwell spacing rate
           = Inr h \<and> hop_frequencies h = [] \<and> hop_count h = 0"
    by (simp add: FrequencyHopper_init_def generate_hop_table_def channel_grid_def)
next
  assume "spacing \<noteq> 0 \<and> (overflows (freq_max - freq_min) \<or>
      overflows (round64 (freq_max - freq_min) / spacing))"
  then have "num_channels_of (freq_min, freq_max) spacing = Inl OverflowError"
    by (intro num_channels_of_overflow) simp_all
  from generate_hop_table_error [OF this]
  show "FrequencyHopper_init key_arg token (freq_min, freq_max) dwell spacing rate
        = Inl OverflowError"
    by (simp only: init_Inl_iff)
qed

theorem init_range_and_spacing_outcomes_witness:
  "FrequencyHopper_init (Some [1, 2, 3]) [] (20000, 40000) 10 0 192000 = Inl ZeroDivisionError \<and>
   \<not> overflows (50 - 100) \<and> \<not> overflows (round64 (50 - 100) / 100) \<and>
   (\<exists>h. FrequencyHopper_init (Some [1, 2, 3]) [] (100, 50) 10 100 192000 = Inr h \<and>
        hop_frequencies h = [] \<and> hop_count h = 0) \<and>
   \<not> overflows (100 - 50) \<and> \<not> overflows (round64 (100 - 50) / (- 100)) \<and>
   (\<exists>h. FrequencyHopper_init (Some [1, 2, 3]) [] (50, 100) 10 (- 100) 192000 = Inr h \<and>
        hop_frequencies h = [] \<and> hop_count h = 0) \<and>
   overflows (round64 (40000 - 20000) / (1 / 2 ^ 1070)) \<and>
   FrequencyHopper_init (Some [1, 2, 3]) [] (20000, 40000) 10 (1 / 2 ^ 1070) 192000
     = Inl OverflowError"
proof -
  have i: "round64 (real_of_int n) = real_of_int n" if "\<bar>n\<bar> < 2 ^ 53" for n
    using that by (rule round64_of_int)
  have r: "round64 (- 50) = - 50" "round64 50 = 50"
    using i [of "- 50"] i [of 50] by simp_all
  have h: "round64 (- (1 / 2)) = - (1 / 2)"
    by (rule round64_exact [where k = 0]) simp_all
  have n: "\<not> overflows (50 - 100) \<and> \<not> overflows (round64 (50 - 100) / 100) \<and>
    \<not> overflows (100 - 50) \<and> \<not> overflows (round64 (100 - 50) / (- 100))"
    by (simp add: overflows_def r h)
  have o: "overflows (round64 (40000 - 20000) / (1 / 2 ^ 1070))"
    by (rule tiny_spacing_overflows)
  show ?thesis
    using n o
      init_range_and_spacing_outcomes [where spacing = 0 and key_arg = "Some [1, 2, 3]"
        and token = "[]" and freq_min = 20000 and freq_max = 40000 and dwell = 10
        and rate = 192000]
      init_range_and_spacing_outcomes [where spacing = 100 and key_arg = "Some [1, 2, 3]"
        and token = "[]" and freq_min = 100 and freq_max = 50 and dwell = 10 and rate = 192000]
      init_range_and_spacing_outcomes [where spacing = "- 100" and key_arg = "Some [1, 2, 3]"
        and token = "[]" and freq_min = 50 and freq_max = 100 and dwell = 10 and rate = 192000]
      init_range_and_spacing_outcomes [where spacing = "1 / 2 ^ 1070"
        and key_arg = "Some [1, 2, 3]" and token = "[]" and freq_min = 20000
        and freq_max = 40000 and dwell = 10 and rate = 192000]
    by simp
qed

lemma round64_eval:
  assumes "2 powi k \<le> \<bar>x\<bar>" and "\<bar>x\<bar> < 2 powi (k + 1)" and "- 1022 \<le> k" and "k \<le> 1023"
  shows "round64 x = real_of_int (round_half_even (x / 2 powi (k - 52))) * 2 powi (k - 52)"
proof -
  have "binade x = k" using assms by (intro binade_eq) simp_all
  then show ?thesis by (simp add: round64_def Let_def)
qed

text \<open>
  Rounding decides the channel count: for the range \<open>(0, 1)\<close> and the double nearest to
  \<open>0.1\<close> as spacing, the exact quotient is below 10 and the rounded one is 10.
\<close>

lemma rounded_quotient_example:
  "num_channels_of (0, 1) (3602879701896397 / 2 ^ 55) = Inr 10"
  "\<lfloor>(1 - 0) / (3602879701896397 / 2 ^ 55 :: real)\<rfloor> = 9"
proof -
  have one: "round64 1 = 1"
    using round64_of_int [of 1] by simp
  have q: "round64 (36028797018963968 / 3602879701896397) = 10"
    by (subst round64_eval [where k = 3]) (simp_all add: round_half_even_def)
  show "num_channels_of (0, 1) (3602879701896397 / 2 ^ 55) = Inr 10"
    by (simp add: num_channels_of_def overflows_def one q py_int_def)
  show "\<lfloor>(1 - 0) / (3602879701896397 / 2 ^ 55 :: real)\<rfloor> = 9"
    by simp
qed

text \<open>
  Rounding decides the bitrate: for 24 payload bits and 5 samples at 192000 Hz the exact
  quotient is 921600, the duration rounds up, and the double quotient is just below.
\<close>

lemma stats_example_values:
  "round64 (1 / 38400) = 7686143364045647 / 2 ^ 68"
  "round64 (7083549724304467820544 / 7686143364045647) = 7916483719987199 / 2 ^ 33"
  "\<lfloor>7916483719987199 / 2 ^ 33 :: real\<rfloor> = 921599"
proof -
  show "round64 (1 / 38400) = 7686143364045647 / 2 ^ 68"
    by (subst round64_eval [where k = "- 16"]) (simp_all add: round_half_even_def)
  show "round64 (7083549724304467820544 / 7686143364045647) = 7916483719987199 / 2 ^ 33"
    by (subst round64_eval [where k = 19]) (simp_all add: round_half_even_def)
  show "\<lfloor>7916483719987199 / 2 ^ 33 :: real\<rfloor> = 921599"
    by simp
qed

text \<open>
  Rounding can merge grid values: with spacing 1 above \<open>10^17\<close>, where doubles are 16
  apart, the first two grid entries are the same frequency. The hop sequence is a
  permutation of the grid's positions, not a list of distinct values.
\<close>

lemma rounded_grid_example:
  "channel_grid (10 ^ 17, 10 ^ 17 + 96) 1 96 ! 0 = 10 ^ 17"
  "channel_grid (10 ^ 17, 10 ^ 17 + 96) 1 96 ! 1 = 10 ^ 17"
proof -
  have z: "round64 0 = 0" "round64 1 = 1"
    using round64_of_int [of 0] round64_of_int [of 1] by simp_all
  have a: "round64 (10 ^ 17) = 10 ^ 17"
    by (subst round64_eval [where k = 56]) (simp_all add: round_half_even_def)
  have b: "round64 (10 ^ 17 + 1) = 10 ^ 17"
    by (subst round64_eval [where k = 56]) (simp_all add: round_half_even_def)
  show "channel_grid (10 ^ 17, 10 ^ 17 + 96) 1 96 ! 0 = 10 ^ 17"
    using a by (simp add: channel_grid_def z)
  show "channel_grid (10 ^ 17, 10 ^ 17 + 96) 1 96 ! 1 = 10 ^ 17"
    using b by (simp add: channel_grid_def z)
qed

subsection \<open>Carrier lookup and the sample loop\<close>

lemma py_index_in_range:
  "0 \<le> i \<Longrightarrow> i < int (length xs) \<Longrightarrow> py_index xs i = Inr (xs ! nat i)"
  by (simp add: py_index_def)

lemma get_hop_freq_cases:
  assumes "hop_count h = int (length (hop_frequencies h))"
  shows "get_hop_freq h i =
           (if hop_count h = 0 then Inl ZeroDivisionError
            else Inr (hop_frequencies h ! nat (i mod hop_count h)))"
proof (cases "hop_count h = 0")
  case True
  then show ?thesis by (simp add: get_hop_freq_def)
next
  case False
  with assms have pos: "0 < hop_count h" by simp
  then have "0 \<le> i mod hop_count h" and "i mod hop_count h < int (length (hop_frequencies h))"
    using assms by simp_all
  then show ?thesis
    using False by (simp add: get_hop_freq_def py_index_in_range)
qed

lemma sample_loop_fails:
  "js \<noteq> [] \<Longrightarrow> \<forall>i\<in>set js. body i = Inl e \<Longrightarrow> sample_loop body js samples = Inl e"
  by (cases js) simp_all

lemma sample_loop_succeeds:
  "\<forall>i\<in>set js. \<exists>v. body i = Inr v \<and> P v \<Longrightarrow> \<forall>x\<in>set samples. P x \<Longrightarrow>
   \<exists>out. sample_loop body js samples = Inr out \<and> (\<forall>x\<in>set out. P x)"
proof (induction js arbitrary: samples)
  case Nil
  then show ?case by simp
next
  case (Cons i js)
  from Cons.prems(1) obtain v where v: "body i = Inr v" "P v" by auto
  have "\<forall>x\<in>set (samples[i := v]). P x"
    using Cons.prems(2) v(2) by (metis insert_iff set_update_subset_insert subsetD)
  moreover from Cons.prems(1) have "\<forall>i\<in>set js. \<exists>v. body i = Inr v \<and> P v" by simp
  ultimately obtain out where "sample_loop body js (samples[i := v]) = Inr out"
    and "\<forall>x\<in>set out. P x"
    using Cons.IH by blast
  then show ?case using v(1) by simp
qed

lemma fm_sample_zero_frequency:
  "fm_sample h c d 0 a p i = Inl ZeroDivisionError"
  by (simp add: fm_sample_def)

lemma fm_sample_value:
  "sample_rate h \<noteq> 0 \<Longrightarrow> f \<noteq> 0 \<Longrightarrow>
   fm_sample h c d f a p i =
     Inr (a * sin (2 * pi * c * (real i / real_of_int (sample_rate h)) +
                   d / f * sin (2 * pi * f * (real i / real_of_int (sample_rate h))) + p))"
  by (simp add: fm_sample_def Let_def)


lemma encode_symbol_zero_frequency_raises:
  assumes inv: "hop_count h = int (length (hop_frequencies h))"
    and n: "1 \<le> py_int (real_of_int (sample_rate h) * dwell_time_sec h)"
  shows "encode_symbol h 0 a p i = Inl ZeroDivisionError"
proof (cases "hop_count h = 0")
  case True
  then show ?thesis by (simp add: encode_symbol_def get_hop_freq_def)
next
  case False
  let ?n = "nat (py_int (real_of_int (sample_rate h) * dwell_time_sec h))"
  have "[0..<?n] \<noteq> []" using n by simp
  then have "sample_loop
      (fm_sample h (hop_frequencies h ! nat (i mod hop_count h))
         (hop_frequencies h ! nat (i mod hop_count h) * (1 / 10)) 0 a p)
      [0..<?n] (replicate ?n 0) = Inl ZeroDivisionError"
    by (rule sample_loop_fails) (simp add: fm_sample_zero_frequency)
  then show ?thesis
    using False by (simp add: encode_symbol_def get_hop_freq_cases [OF inv] Let_def)
qed

lemma encode_symbol_nonzero_frequency:
  assumes inv: "hop_count h = int (length (hop_frequencies h))"
    and hc: "hop_count h \<noteq> 0" and f: "f \<noteq> 0"
  shows "\<exists>samples. encode_symbol h f a p i = Inr samples"
proof (cases "sample_rate h = 0")
  case True
  then show ?thesis
    using hc by (simp add: encode_symbol_def get_hop_freq_cases [OF inv] py_int_def)
next
  case False
  let ?n = "nat (py_int (real_of_int (sample_rate h) * dwell_time_sec h))"
  let ?c = "hop_frequencies h ! nat (i mod hop_count h)"
  have "\<forall>j\<in>set [0..<?n]. \<exists>v. fm_sample h ?c (?c * (1 / 10)) f a p j = Inr v \<and> True"
    using False f by (simp add: fm_sample_value)
  moreover have "\<forall>x\<in>set (replicate ?n (0::real)). True" by simp
  ultimately obtain out where
    "sample_loop (fm_sample h ?c (?c * (1 / 10)) f a p) [0..<?n] (replicate ?n 0) = Inr out"
    using sample_loop_succeeds [where P = "\<lambda>v. True"] by blast
  then show ?thesis
    using hc by (simp add: encode_symbol_def get_hop_freq_cases [OF inv] Let_def)
qed





lemma message_loop_zero_frequency:
  assumes inv: "hop_count h = int (length (hop_frequencies h))"
    and n: "1 \<le> py_int (real_of_int (sample_rate h) * dwell_time_sec h)"
  shows "\<exists>s\<in>set symbols. fst s = 0 \<Longrightarrow> message_loop h symbols acc k = Inl ZeroDivisionError"
proof (induction symbols arbitrary: acc k)
  case Nil
  then show ?case by simp
next
  case (Cons s rest)
  obtain f a p where s: "s = (f, a, p)" by (cases s)
  show ?case
  proof (cases "encode_symbol h f a p k")
    case (Inl e)
    have "e = ZeroDivisionError"
    proof (cases "f = 0")
      case True
      with Inl encode_symbol_zero_frequency_raises [OF inv n, of a p k] show ?thesis by simp
    next
      case False
      have "hop_count h = 0"
      proof (rule ccontr)
        assume "hop_count h \<noteq> 0"
        from encode_symbol_nonzero_frequency [OF inv this False, of a p k] Inl
        show False by auto
      qed
      with Inl show ?thesis by (simp add: encode_symbol_def get_hop_freq_def)
    qed
    with Inl s show ?thesis by simp
  next
    case (Inr ss)
    with encode_symbol_zero_frequency_raises [OF inv n, of a p k] have "f \<noteq> 0" by auto
    with Cons.prems s have "\<exists>s\<in>set rest. fst s = 0" by auto
    from Cons.IH [OF this] Inr s show ?thesis by simp
  qed
qed

text \<open>
  C10 (as stated). With \<open>dwell_time_ms = 0\<close> the dwell window holds no sample, the loop
  body never runs, and a symbol of modulating frequency 0 encodes to the empty waveform.
\<close>

theorem zero_frequency_with_empty_dwell_returns:
  "encode_symbol hopper_zero_dwell 0 1 0 0 = Inr []"
  by (simp add: encode_symbol_def get_hop_freq_def py_index_def py_int_def
      hopper_zero_dwell_def hopper_example_def)

text \<open>
  C10 (amended). On a generator as the constructor leaves it (\<open>hop_count\<close> the length of
  the hop table) whose dwell window holds at least one sample, a symbol of modulating
  frequency 0 makes \<open>encode_symbol\<close> raise ZeroDivisionError, and so does
  \<open>encode_message\<close> on any list that holds such a symbol; with a non-empty hop table a
  nonzero modulating frequency always encodes.
\<close>

theorem zero_modulating_frequency_raises:
  assumes "hop_count h = int (length (hop_frequencies h))"
    and "1 \<le> py_int (real_of_int (sample_rate h) * dwell_time_sec h)"
  shows "encode_symbol h 0 a p i = Inl ZeroDivisionError \<and>
         ((\<exists>s\<in>set symbols. fst s = 0) \<longrightarrow>
            encode_message h symbols start = Inl ZeroDivisionError) \<and>
         (hop_count h \<noteq> 0 \<and> f \<noteq> 0 \<longrightarrow> (\<exists>samples. encode_symbol h f a p i = Inr samples))"
proof (intro conjI impI)
  show "encode_symbol h 0 a p i = Inl ZeroDivisionError"
    using assms by (rule encode_symbol_zero_frequency_raises)
next
  assume "\<exists>s\<in>set symbols. fst s = 0"
  then have "message_loop h symbols [] start = Inl ZeroDivisionError"
    by (rule message_loop_zero_frequency [OF assms])
  then show "encode_message h symbols start = Inl ZeroDivisionError"
    by (simp add: encode_message_def)
next
  assume "hop_count h \<noteq> 0 \<and> f \<noteq> 0"
  then show "\<exists>samples. encode_symbol h f a p i = Inr samples"
    using encode_symbol_nonzero_frequency [OF assms(1)] by blast
qed

theorem zero_modulating_frequency_raises_witness:
  "hop_count hopper_example = int (length (hop_frequencies hopper_example)) \<and>
   1 \<le> py_int (real_of_int (sample_rate hopper_example) * dwell_time_sec hopper_example) \<and>
   encode_symbol hopper_example 0 1 0 0 = Inl ZeroDivisionError \<and>
   encode_message hopper_example [(440, 1, 0), (0, 1, 0)] 0 = Inl ZeroDivisionError \<and>
   (\<exists>samples. encode_symbol hopper_example 440 1 0 0 = Inr samples)"
proof -
  have a: "hop_count hopper_example = int (length (hop_frequencies hopper_example))"
    by (simp add: hopper_example_def)
  have b: "1 \<le> py_int (real_of_int (sample_rate hopper_example) * dwell_time_sec hopper_example)"
    by (simp add: hopper_example_def py_int_def)
  have c: "hop_count hopper_example \<noteq> 0 \<and> (440::real) \<noteq> 0"
    by (simp add: hopper_example_def)
  from zero_modulating_frequency_raises [OF a b, of 1 0 0 "[(440, 1, 0), (0, 1, 0)]" 0 440] a b c
  show ?thesis by simp
qed

subsection \<open>The symbol decoder\<close>

lemma decode_symbol_frequency:
  assumes "decode_symbol h samples i = Inr r"
  shows "get_hop_freq h i = Inr (fst r)"
  using assms
  by (cases "get_hop_freq h i") (auto simp: decode_symbol_def Let_def split: if_splits)

text \<open>
  C7 (as stated). No encoded symbol decodes to a frequency other than the carrier of its
  hop index: the decoder's first component is the carrier whatever the window holds.
\<close>

theorem decoded_frequency_never_differs_from_carrier:
  "\<not> (\<exists>h f a p i c samples r.
         get_hop_freq h i = Inr c \<and> f \<noteq> c \<and> encode_symbol h f a p i = Inr samples \<and>
         decode_symbol h samples i = Inr r \<and> fst r \<noteq> c)"
proof
  assume "\<exists>h f a p i c samples r.
         get_hop_freq h i = Inr c \<and> f \<noteq> c \<and> encode_symbol h f a p i = Inr samples \<and>
         decode_symbol h samples i = Inr r \<and> fst r \<noteq> c"
  then obtain h i c samples r where c: "get_hop_freq h i = Inr c"
    and d: "decode_symbol h samples i = Inr r" and ne: "fst r \<noteq> c"
    by blast
  from decode_symbol_frequency [OF d] c have "fst r = c" by simp
  with ne show False by contradiction
qed

text \<open>
  C7 (amended). The decoder demodulates the window against the carrier of the hop index
  to get amplitude and phase, and returns that carrier itself as the frequency: whenever it
  returns, the frequency is the carrier, and it returns for every window once the carrier
  lookup succeeds (an empty window, or a nonzero sample rate).
\<close>

theorem decode_symbol_returns_carrier:
  assumes "get_hop_freq h i = Inr c" and "samples = [] \<or> sample_rate h \<noteq> 0"
  shows "\<exists>amplitude phase. decode_symbol h samples i = Inr (c, amplitude, phase)"
  using assms by (auto simp: decode_symbol_def Let_def)

theorem decode_symbol_returns_carrier_witness:
  "get_hop_freq hopper_example 4 = Inr 20000 \<and>
   ([1 / 2, - 1 / 4] = ([]::real list) \<or> sample_rate hopper_example \<noteq> 0) \<and>
   (\<exists>amplitude phase.
      decode_symbol hopper_example [1 / 2, - 1 / 4] 4 = Inr (20000, amplitude, phase))"
proof -
  have a: "get_hop_freq hopper_example 4 = Inr 20000"
    by (simp add: get_hop_freq_def py_index_def hopper_example_def)
  have b: "[1 / 2, - 1 / 4] = ([]::real list) \<or> sample_rate hopper_example \<noteq> 0"
    by (simp add: hopper_example_def)
  from decode_symbol_returns_carrier [OF a b] a b show ?thesis by blast
qed

subsection \<open>The key of a generator\<close>

lemma init_key_determines_table:
  assumes "k \<noteq> []"
  shows "FrequencyHopper_init (Some k) token1 rng dwell spacing rate =
         FrequencyHopper_init (Some k) token2 rng dwell spacing rate"
  using assms by (simp add: FrequencyHopper_init_def)

text \<open>
  C1. With the empty byte string as key, \<open>secret_key or secrets.token_bytes(32)\<close> takes
  the random token: the generator is the one built for no key at all. Two generators built
  with the same key \<open>b''\<close> over a two-channel grid hold the keys of their two tokens,
  and their hop tables are derived from those.
\<close>

theorem empty_key_is_replaced_by_random_token:
  "FrequencyHopper_init (Some []) token rng dwell spacing rate =
   FrequencyHopper_init None token rng dwell spacing rate \<and>
   map_sum id secret_key
     (FrequencyHopper_init (Some []) (replicate 32 7) (20000, 20200) 10 100 192000) =
     Inr (replicate 32 7) \<and>
   map_sum id secret_key
     (FrequencyHopper_init (Some []) (replicate 32 9) (20000, 20200) 10 100 192000) =
     Inr (replicate 32 9)"
proof -
  from init_succeeds [OF small_examples(2), of "Some []" "replicate 32 7" 10 192000]
  have a: "map_sum id secret_key
     (FrequencyHopper_init (Some []) (replicate 32 7) (20000, 20200) 10 100 192000) =
     Inr (replicate 32 7)"
    by auto
  from init_succeeds [OF small_examples(2), of "Some []" "replicate 32 9" 10 192000]
  have b: "map_sum id secret_key
     (FrequencyHopper_init (Some []) (replicate 32 9) (20000, 20200) 10 100 192000) =
     Inr (replicate 32 9)"
    by auto
  have "FrequencyHopper_init (Some []) token rng dwell spacing rate =
        FrequencyHopper_init None token rng dwell spacing rate"
    by (simp add: FrequencyHopper_init_def)
  with a b show ?thesis by (simp only: simp_thms)
qed

subsection \<open>The multi-carrier encoder: construction\<close>

lemma log2_levels:
  "py_int (log 2 2) = 1" "py_int (log 2 4) = 2" "py_int (log 2 16) = 4" "py_int (log 2 64) = 6"
proof -
  have p: "log 2 ((2::real) ^ k) = real k" for k
    by (simp add: log_pow_cancel)
  have "log 2 (2::real) = 1" by simp
  moreover have "log 2 (4::real) = 2" using p [of 2] by simp
  moreover have "log 2 (16::real) = 4" using p [of 4] by simp
  moreover have "log 2 (64::real) = 6" using p [of 6] by simp
  ultimately show "py_int (log 2 2) = 1" "py_int (log 2 4) = 2" "py_int (log 2 16) = 4"
    "py_int (log 2 64) = 6"
    by (simp_all add: py_int_def)
qed

lemma OFDM_CARRIER_SPACING_value: "OFDM_CARRIER_SPACING = 625 / 2"
  by (simp add: OFDM_CARRIER_SPACING_def OFDM_BANDWIDTH_def OFDM_MAX_FREQ_def OFDM_MIN_FREQ_def
      OFDM_NUM_CARRIERS_def)

lemma UltrasonicOFDM_init_supported:
  assumes "map_of QAM_LEVELS m = Some level"
  shows "UltrasonicOFDM_init rate n m =
     Inr \<lparr>ofdm_sample_rate = rate, num_carriers = n, modulation = m,
          bits_per_symbol = py_int (log 2 (real level)),
          carrier_freqs = map (\<lambda>i. 25000 + real i * (625 / 2)) [0..<nat n]\<rparr>"
  using assms
  by (simp add: UltrasonicOFDM_init_def OFDM_CARRIER_SPACING_value OFDM_MIN_FREQ_def)

text \<open>
  C3 (as stated). The multi-carrier encoder is constructed with a carrier equal to
  \<open>sample_rate / 2\<close>, and the hop-sequence generator with every carrier at or above it.
\<close>

theorem carriers_at_nyquist_are_accepted:
  "UltrasonicOFDM_init 50000 1 ''QPSK'' =
     Inr \<lparr>ofdm_sample_rate = 50000, num_carriers = 1, modulation = ''QPSK'',
          bits_per_symbol = 2, carrier_freqs = [25000]\<rparr> \<and>
   (25000::real) = real_of_int 50000 / 2 \<and>
   map_sum id (set \<circ> hop_frequencies)
     (FrequencyHopper_init (Some [1, 2, 3]) [] (20000, 20300) 10 100 40000) =
     Inr {20000, 20100, 20200} \<and>
   real_of_int 40000 / 2 \<le> (20000::real)"
proof -
  have "map_of QAM_LEVELS ''QPSK'' = Some 4"
    by (simp add: QAM_LEVELS_def)
  from UltrasonicOFDM_init_supported [OF this, of 50000 1]
  have a: "UltrasonicOFDM_init 50000 1 ''QPSK'' =
     Inr \<lparr>ofdm_sample_rate = 50000, num_carriers = 1, modulation = ''QPSK'',
          bits_per_symbol = 2, carrier_freqs = [25000]\<rparr>"
    by (simp add: log2_levels)
  from init_succeeds [OF small_examples(1), of "Some [1, 2, 3]" "[]" 10 40000]
  obtain h where h: "FrequencyHopper_init (Some [1, 2, 3]) [] (20000, 20300) 10 100 40000 = Inr h"
    and m: "mset (hop_frequencies h) = mset [20000, 20100, 20200]"
    by (auto simp: small_examples)
  with m have "set (hop_frequencies h) = {20000, 20100, 20200}"
    by (metis list.simps(15) empty_set mset_eq_setD)
  with h a show ?thesis by simp
qed

text \<open>
  C3 (amended). Neither constructor compares a carrier with \<open>sample_rate / 2\<close>: the
  generator's outcome and hop table are the same for every sample rate, and the encoder is
  constructed for every sample rate and carrier count once the modulation name is in the
  table, with carriers \<open>25000 + i * 312.5\<close>.
\<close>

theorem construction_ignores_sample_rate:
  "map_sum id hop_frequencies
       (FrequencyHopper_init key_arg token rng dwell spacing rate1) =
   map_sum id hop_frequencies
       (FrequencyHopper_init key_arg token rng dwell spacing rate2) \<and>
   (m \<in> {''BPSK'', ''QPSK'', ''16QAM'', ''64QAM''} \<longrightarrow>
      (\<exists>self. UltrasonicOFDM_init rate n m = Inr self \<and> ofdm_sample_rate self = rate \<and>
         carrier_freqs self = map (\<lambda>i. 25000 + real i * (625 / 2)) [0..<nat n]))"
proof (intro conjI impI)
  show "map_sum id hop_frequencies
       (FrequencyHopper_init key_arg token rng dwell spacing rate1) =
     map_sum id hop_frequencies
       (FrequencyHopper_init key_arg token rng dwell spacing rate2)"
    by (simp add: FrequencyHopper_init_def Let_def split: sum.splits)
next
  assume "m \<in> {''BPSK'', ''QPSK'', ''16QAM'', ''64QAM''}"
  then obtain level where "map_of QAM_LEVELS m = Some level"
    by (auto simp: QAM_LEVELS_def)
  from UltrasonicOFDM_init_supported [OF this, of rate n]
  show "\<exists>self. UltrasonicOFDM_init rate n m = Inr self \<and> ofdm_sample_rate self = rate \<and>
         carrier_freqs self = map (\<lambda>i. 25000 + real i * (625 / 2)) [0..<nat n]"
    by simp
qed

theorem construction_ignores_sample_rate_witness:
  "''QPSK'' \<in> {''BPSK'', ''QPSK'', ''16QAM'', ''64QAM''} \<and>
   (\<exists>self. UltrasonicOFDM_init 50000 2 ''QPSK'' = Inr self \<and> ofdm_sample_rate self = 50000 \<and>
      carrier_freqs self = [25000, 25000 + 625 / 2])"
  using construction_ignores_sample_rate [where m = "''QPSK''" and rate = 50000 and n = 2]
  by (simp add: upt_conv_Cons)

subsection \<open>The transmission statistics\<close>

text \<open>
  C8 (as stated). For an empty payload the encoder returns no samples, the duration is 0,
  and the statistics raise ZeroDivisionError.
\<close>

theorem stats_of_empty_waveform_raise_ZeroDivisionError:
  "calculate_stats
     \<lparr>ofdm_sample_rate = 192000, num_carriers = 64, modulation = ''QPSK'',
      bits_per_symbol = 2, carrier_freqs = map (\<lambda>i. 25000 + real i * (625 / 2)) [0..<64]\<rparr>
     [] [] = Inl ZeroDivisionError"
proof -
  have "round64 (real_of_int 0) = real_of_int 0" by (rule round64_of_int) simp
  then have "round64 0 = 0" by simp
  then show ?thesis by (simp add: calculate_stats_def overflows_def)
qed

text \<open>
  C8 (amended). The statistics are a function of the payload length, the number of
  samples and the sample rate, the bandwidth being the constant 20000. They raise
  ZeroDivisionError for sample rate 0 and for a duration \<open>len(samples) / sample_rate\<close>
  that rounds to 0 (no samples in particular), and OverflowError when a quotient or the
  payload size is beyond the doubles; there is no other failure and no ConfigError.
  Otherwise they return the rounded duration (also when negative), the truncation of the
  double \<open>payload_bits / duration\<close> as bitrate, and that double over 20000 as efficiency.
\<close>

theorem calculate_stats_outcomes:
  "calculate_stats self data samples =
     (if ofdm_sample_rate self = 0 then Inl ZeroDivisionError
      else if overflows (real (length samples) / real_of_int (ofdm_sample_rate self)) \<or>
              overflows (real (length data * 8))
        then Inl OverflowError
      else if round64 (real (length samples) / real_of_int (ofdm_sample_rate self)) = 0
        then Inl ZeroDivisionError
      else if overflows (round64 (real (length data * 8)) /
                round64 (real (length samples) / real_of_int (ofdm_sample_rate self)))
        then Inl OverflowError
      else Inr \<lparr>raw_bytes = length data, compressed_bytes = length data, compression_ratio = 1,
             transmission_time =
               round64 (real (length samples) / real_of_int (ofdm_sample_rate self)),
             bitrate_bps = py_int (round64 (round64 (real (length data * 8)) /
               round64 (real (length samples) / real_of_int (ofdm_sample_rate self)))),
             efficiency = round64 (round64 (round64 (real (length data * 8)) /
               round64 (real (length samples) / real_of_int (ofdm_sample_rate self)))
               / 20000)\<rparr>) \<and>
   (ofdm_sample_rate self = 0 \<or> (samples = [] \<and> \<not> overflows (real (length data * 8))) \<longrightarrow>
      calculate_stats self data samples = Inl ZeroDivisionError)"
proof -
  have "round64 (real_of_int 0) = real_of_int 0" by (rule round64_of_int) simp
  then have z: "round64 0 = 0" by simp
  then have nz: "\<not> overflows 0" by (simp add: overflows_def)
  show ?thesis
    by (auto simp: calculate_stats_def Let_def OFDM_BANDWIDTH_def OFDM_MAX_FREQ_def
        OFDM_MIN_FREQ_def z nz)
qed

theorem calculate_stats_outcomes_witness:
  "((192000::int) = 0 \<or> (([]::real list) = [] \<and> \<not> overflows (real (length ([]::byte list) * 8)))) \<and>
   calculate_stats
     \<lparr>ofdm_sample_rate = 192000, num_carriers = 64, modulation = ''QPSK'',
      bits_per_symbol = 2, carrier_freqs = map (\<lambda>i. 25000 + real i * (625 / 2)) [0..<64]\<rparr>
     [] [] = Inl ZeroDivisionError \<and>
   map_sum id bitrate_bps
     (calculate_stats
       \<lparr>ofdm_sample_rate = 192000, num_carriers = 64, modulation = ''QPSK'',
        bits_per_symbol = 2, carrier_freqs = map (\<lambda>i. 25000 + real i * (625 / 2)) [0..<64]\<rparr>
       [1, 2, 3] [0, 0, 0, 0, 0]) = Inr 921599"
proof -
  let ?self = "\<lparr>ofdm_sample_rate = 192000, num_carriers = 64, modulation = ''QPSK'',
      bits_per_symbol = 2, carrier_freqs = map (\<lambda>i. 25000 + real i * (625 / 2)) [0..<64]\<rparr>"
  have "round64 (real_of_int 0) = real_of_int 0" by (rule round64_of_int) simp
  then have z: "\<not> overflows (real (length ([]::byte list) * 8))"
    by (simp add: overflows_def)
  have "round64 (real_of_int 24) = real_of_int 24" by (rule round64_of_int) simp
  then have a: "round64 24 = 24" by simp
  note v = stats_example_values
  have o: "\<not> overflows (5 / 192000)" "\<not> overflows 24"
    "\<not> overflows (24 / (7686143364045647 / 2 ^ 68))"
    by (simp_all add: overflows_def v(1,2) a)
  have e: "calculate_stats ?self [] [] = Inl ZeroDivisionError"
    using conjunct2 [OF calculate_stats_outcomes [of ?self "[]" "[]"]] z by blast
  have b: "map_sum id bitrate_bps (calculate_stats ?self [1, 2, 3] [0, 0, 0, 0, 0]) = Inr 921599"
    using o by (subst conjunct1 [OF calculate_stats_outcomes]) (simp add: v a py_int_def)
  with b e z show ?thesis by simp
qed

subsection \<open>The constellation\<close>

lemma and_3_cases: "(x::int) AND 3 \<in> {0, 1, 2, 3}"
proof -
  have m: "(3::int) = mask 2" by (simp add: mask_eq_exp_minus_1)
  have "x AND 3 = take_bit 2 x" unfolding m by (simp only: take_bit_eq_mask)
  also have "\<dots> = x mod 4" by (simp add: take_bit_eq_mod)
  finally have "x AND 3 = x mod 4" .
  moreover have "0 \<le> x mod 4" and "x mod 4 < 4" by simp_all
  ultimately show ?thesis by auto
qed

lemma and_7_cases: "(x::int) AND 7 \<in> {0, 1, 2, 3, 4, 5, 6, 7}"
proof -
  have m: "(7::int) = mask 3" by (simp add: mask_eq_exp_minus_1)
  have "x AND 7 = take_bit 3 x" unfolding m by (simp only: take_bit_eq_mask)
  also have "\<dots> = x mod 8" by (simp add: take_bit_eq_mod)
  finally have "x AND 7 = x mod 8" .
  moreover have "0 \<le> x mod 8" and "x mod 8 < 8" by simp_all
  ultimately show ?thesis by auto
qed

lemma level16_bounded: "\<bar>real_of_int ([- 3, - 1, 1, 3] ! nat (x AND 3)) / 3\<bar> \<le> 1"
  using and_3_cases [of x] by auto

lemma level64_bounded:
  "\<bar>real_of_int ([- 7, - 5, - 3, - 1, 1, 3, 5, 7] ! nat (x AND 7)) / 7\<bar> \<le> 1"
  using and_7_cases [of x] by auto

lemma py_index_member: "py_index xs i = Inr a \<Longrightarrow> a \<in> set xs"
  by (auto simp: py_index_def split: if_splits)

lemma qam_constellation_in_square:
  assumes "qam_constellation self symbol = Inr (i, q)"
  shows "\<bar>i\<bar> \<le> 1 \<and> \<bar>q\<bar> \<le> 1"
proof -
  consider (bpsk) "modulation self = ''BPSK''"
    | (qpsk) "modulation self = ''QPSK''"
    | (qam16) "modulation self = ''16QAM''"
    | (qam64) "modulation self = ''64QAM''"
    | (other) "modulation self \<notin> {''BPSK'', ''QPSK'', ''16QAM'', ''64QAM''}"
    by blast
  then show ?thesis
  proof cases
    case bpsk
    with assms show ?thesis by (auto simp: qam_constellation_def split: if_splits)
  next
    case qpsk
    with assms obtain a where "i = cos (a * (pi / 180))" "q = sin (a * (pi / 180))"
      by (auto simp: qam_constellation_def Let_def split: sum.splits)
    then show ?thesis by simp
  next
    case qam16
    with assms have "i = real_of_int ([- 3, - 1, 1, 3] ! nat (symbol AND 3)) / 3"
      and "q = real_of_int ([- 3, - 1, 1, 3] ! nat (drop_bit 2 symbol AND 3)) / 3"
      by (simp_all add: qam_constellation_def Let_def)
    then show ?thesis
      using level16_bounded [of symbol] level16_bounded [of "drop_bit 2 symbol"]
      by (simp only:)
  next
    case qam64
    with assms have "i = real_of_int ([- 7, - 5, - 3, - 1, 1, 3, 5, 7] ! nat (symbol AND 7)) / 7"
      and "q = real_of_int ([- 7, - 5, - 3, - 1, 1, 3, 5, 7] ! nat (drop_bit 3 symbol AND 7)) / 7"
      by (simp_all add: qam_constellation_def Let_def)
    then show ?thesis
      using level64_bounded [of symbol] level64_bounded [of "drop_bit 3 symbol"]
      by (simp only:)
  next
    case other
    with assms show ?thesis by (auto simp: qam_constellation_def)
  qed
qed

lemma qam_constellation_psk_unit:
  assumes "qam_constellation self symbol = Inr (i, q)"
    and "modulation self = ''BPSK'' \<or> modulation self = ''QPSK''"
  shows "i\<^sup>2 + q\<^sup>2 = 1"
proof -
  from assms(2) show ?thesis
  proof
    assume "modulation self = ''BPSK''"
    with assms(1) show ?thesis by (auto simp: qam_constellation_def split: if_splits)
  next
    assume "modulation self = ''QPSK''"
    with assms(1) obtain a where "i = cos (a * (pi / 180))" "q = sin (a * (pi / 180))"
      by (auto simp: qam_constellation_def Let_def split: sum.splits)
    then show ?thesis by (simp add: add.commute)
  qed
qed

lemma qam_constellation_total:
  assumes "modulation self \<noteq> ''QPSK'' \<or> (0 \<le> symbol \<and> symbol < 4)"
  shows "\<exists>p. qam_constellation self symbol = Inr p"
proof (cases "modulation self = ''QPSK''")
  case True
  with assms have "0 \<le> symbol" "symbol < 4" by simp_all
  then have "\<exists>a::real. py_index [45, 135, 225, 315] symbol = Inr a"
    by (simp add: py_index_def)
  with True show ?thesis by (auto simp: qam_constellation_def Let_def)
next
  case False
  consider (bpsk) "modulation self = ''BPSK''"
    | (qam16) "modulation self = ''16QAM''"
    | (qam64) "modulation self = ''64QAM''"
    | (other) "modulation self \<notin> {''BPSK'', ''QPSK'', ''16QAM'', ''64QAM''}"
    using False by blast
  then show ?thesis
  proof cases
    case bpsk
    then have "qam_constellation self symbol = Inr (if symbol = 1 then 1 else - 1, 0)"
      by (simp add: qam_constellation_def)
    then show ?thesis ..
  next
    case qam16
    then have "qam_constellation self symbol =
        Inr (real_of_int ([- 3, - 1, 1, 3] ! nat (symbol AND 3)) / 3,
             real_of_int ([- 3, - 1, 1, 3] ! nat (drop_bit 2 symbol AND 3)) / 3)"
      by (simp add: qam_constellation_def Let_def)
    then show ?thesis ..
  next
    case qam64
    then have "qam_constellation self symbol =
        Inr (real_of_int ([- 7, - 5, - 3, - 1, 1, 3, 5, 7] ! nat (symbol AND 7)) / 7,
             real_of_int ([- 7, - 5, - 3, - 1, 1, 3, 5, 7] ! nat (drop_bit 3 symbol AND 7)) / 7)"
      by (simp add: qam_constellation_def Let_def)
    then show ?thesis ..
  next
    case other
    then have "qam_constellation self symbol = Inr (0, 0)"
      by (simp add: qam_constellation_def)
    then show ?thesis ..
  qed
qed

text \<open>
  C5 (as stated). In 16QAM the bit-group 15 is mapped to the corner \<open>(1, 1)\<close>, whose norm
  is \<open>sqrt 2\<close> and not 1; in 64QAM the same holds for the bit-group 63.
\<close>

theorem qam_corner_point_is_not_unit_norm:
  "qam_constellation
     \<lparr>ofdm_sample_rate = 192000, num_carriers = 64, modulation = ''16QAM'',
      bits_per_symbol = 4, carrier_freqs = map (\<lambda>i. 25000 + real i * (625 / 2)) [0..<64]\<rparr>
     15 = Inr (1, 1) \<and>
   qam_constellation
     \<lparr>ofdm_sample_rate = 192000, num_carriers = 64, modulation = ''64QAM'',
      bits_per_symbol = 6, carrier_freqs = map (\<lambda>i. 25000 + real i * (625 / 2)) [0..<64]\<rparr>
     63 = Inr (1, 1) \<and>
   sqrt ((1::real)\<^sup>2 + 1\<^sup>2) \<noteq> 1"
proof -
  have a: "(15::int) AND 3 = 3" "drop_bit 2 (15::int) AND 3 = 3"
    "(63::int) AND 7 = 7" "drop_bit 3 (63::int) AND 7 = 7"
    by (simp_all add: drop_bit_eq_div)
  have "sqrt ((1::real)\<^sup>2 + 1\<^sup>2) = sqrt 2" by simp
  moreover have "sqrt 2 \<noteq> (1::real)" by simp
  ultimately show ?thesis
    by (simp add: qam_constellation_def a Let_def)
qed

text \<open>
  C5 (amended). Every supported order maps each bit-group to a point of \<open>[-1, 1]^2\<close>.
  The BPSK and QPSK points all have norm 1. The 16QAM and 64QAM grids are scaled per axis
  (levels over 3, over 7), so that the largest coordinate is 1 and the corner point, the
  one of maximum magnitude, is \<open>(1, 1)\<close>.
\<close>

theorem constellation_points_in_unit_square:
  "(modulation self = ''BPSK'' \<longrightarrow>
      (\<exists>i q. qam_constellation self symbol = Inr (i, q) \<and> \<bar>i\<bar> \<le> 1 \<and> \<bar>q\<bar> \<le> 1 \<and>
         i\<^sup>2 + q\<^sup>2 = 1)) \<and>
   (modulation self = ''QPSK'' \<and> 0 \<le> symbol \<and> symbol < 4 \<longrightarrow>
      (\<exists>i q. qam_constellation self symbol = Inr (i, q) \<and> \<bar>i\<bar> \<le> 1 \<and> \<bar>q\<bar> \<le> 1 \<and>
         i\<^sup>2 + q\<^sup>2 = 1)) \<and>
   (modulation self = ''16QAM'' \<longrightarrow>
      (\<exists>i q. qam_constellation self symbol = Inr (i, q) \<and> \<bar>i\<bar> \<le> 1 \<and> \<bar>q\<bar> \<le> 1) \<and>
      qam_constellation self 15 = Inr (1, 1)) \<and>
   (modulation self = ''64QAM'' \<longrightarrow>
      (\<exists>i q. qam_constellation self symbol = Inr (i, q) \<and> \<bar>i\<bar> \<le> 1 \<and> \<bar>q\<bar> \<le> 1) \<and>
      qam_constellation self 63 = Inr (1, 1))"
proof -
  have sq: "\<exists>i q. qam_constellation self symbol = Inr (i, q) \<and> \<bar>i\<bar> \<le> 1 \<and> \<bar>q\<bar> \<le> 1"
    if "modulation self \<noteq> ''QPSK'' \<or> (0 \<le> symbol \<and> symbol < 4)"
  proof -
    from qam_constellation_total [OF that] obtain i q where
      "qam_constellation self symbol = Inr (i, q)" by fastforce
    with qam_constellation_in_square [OF this] show ?thesis by blast
  qed
  have unit: "\<exists>i q. qam_constellation self symbol = Inr (i, q) \<and> \<bar>i\<bar> \<le> 1 \<and> \<bar>q\<bar> \<le> 1 \<and>
         i\<^sup>2 + q\<^sup>2 = 1"
    if "modulation self \<noteq> ''QPSK'' \<or> (0 \<le> symbol \<and> symbol < 4)"
      and "modulation self = ''BPSK'' \<or> modulation self = ''QPSK''"
    using sq [OF that(1)] qam_constellation_psk_unit [OF _ that(2)] by blast
  have a: "(15::int) AND 3 = 3" "drop_bit 2 (15::int) AND 3 = 3"
    "(63::int) AND 7 = 7" "drop_bit 3 (63::int) AND 7 = 7"
    by (simp_all add: drop_bit_eq_div)
  have c16: "qam_constellation self 15 = Inr (1, 1)" if "modulation self = ''16QAM''"
    using that by (simp add: qam_constellation_def a Let_def)
  have c64: "qam_constellation self 63 = Inr (1, 1)" if "modulation self = ''64QAM''"
    using that by (simp add: qam_constellation_def a Let_def)
  show ?thesis
    using sq unit c16 c64 by auto
qed

theorem constellation_points_in_unit_square_witness:
  "qam_constellation
     \<lparr>ofdm_sample_rate = 192000, num_carriers = 64, modulation = ''BPSK'',
      bits_per_symbol = 1, carrier_freqs = []\<rparr> 1 = Inr (1, 0) \<and>
   (\<exists>i q. qam_constellation
     \<lparr>ofdm_sample_rate = 192000, num_carriers = 64, modulation = ''QPSK'',
      bits_per_symbol = 2, carrier_freqs = []\<rparr> 2 = Inr (i, q) \<and> \<bar>i\<bar> \<le> 1 \<and> \<bar>q\<bar> \<le> 1 \<and>
         i\<^sup>2 + q\<^sup>2 = 1) \<and>
   qam_constellation
     \<lparr>ofdm_sample_rate = 192000, num_carriers = 64, modulation = ''16QAM'',
      bits_per_symbol = 4, carrier_freqs = []\<rparr> 15 = Inr (1, 1) \<and>
   qam_constellation
     \<lparr>ofdm_sample_rate = 192000, num_carriers = 64, modulation = ''64QAM'',
      bits_per_symbol = 6, carrier_freqs = []\<rparr> 63 = Inr (1, 1)"
proof -
  have b: "qam_constellation
     \<lparr>ofdm_sample_rate = 192000, num_carriers = 64, modulation = ''BPSK'',
      bits_per_symbol = 1, carrier_freqs = []\<rparr> 1 = Inr (1, 0)"
    by (simp add: qam_constellation_def)
  show ?thesis
    using b
      constellation_points_in_unit_square [where symbol = 2 and self =
        "\<lparr>ofdm_sample_rate = 192000, num_carriers = 64, modulation = ''QPSK'',
          bits_per_symbol = 2, carrier_freqs = []\<rparr>"]
      constellation_points_in_unit_square [where symbol = 15 and self =
        "\<lparr>ofdm_sample_rate = 192000, num_carriers = 64, modulation = ''16QAM'',
          bits_per_symbol = 4, carrier_freqs = []\<rparr>"]
      constellation_points_in_unit_square [where symbol = 63 and self =
        "\<lparr>ofdm_sample_rate = 192000, num_carriers = 64, modulation = ''64QAM'',
          bits_per_symbol = 6, carrier_freqs = []\<rparr>"]
    by simp
qed

subsection \<open>The multi-carrier waveform: bounds\<close>














subsection \<open>The multi-carrier waveform: the encoder returns\<close>

lemma ofdm_examples_constructed:
  "UltrasonicOFDM_init SAMPLE_RATE OFDM_NUM_CARRIERS ''16QAM'' = Inr ofdm_16qam"
  "UltrasonicOFDM_init SAMPLE_RATE OFDM_NUM_CARRIERS ''BPSK'' = Inr ofdm_bpsk"
proof -
  have "map_of QAM_LEVELS ''16QAM'' = Some 16" "map_of QAM_LEVELS ''BPSK'' = Some 2"
    by (simp_all add: QAM_LEVELS_def)
  moreover have "py_int 1 = 1" by (simp add: py_int_def)
  ultimately show "UltrasonicOFDM_init SAMPLE_RATE OFDM_NUM_CARRIERS ''16QAM'' = Inr ofdm_16qam"
    "UltrasonicOFDM_init SAMPLE_RATE OFDM_NUM_CARRIERS ''BPSK'' = Inr ofdm_bpsk"
    by (simp_all add: UltrasonicOFDM_init_supported log2_levels SAMPLE_RATE_def
        OFDM_NUM_CARRIERS_def ofdm_16qam_def ofdm_bpsk_def)
qed





subsection \<open>The multi-carrier waveform of an all-ones payload in 16QAM\<close>















end
